theory Spec2Isabelle
  imports Complex_Main "HOL-Library.Monad_Syntax" "HOL-Library.Sublist"
begin

section \<open>Data model\<close>

text \<open>
  The detector of \<^verbatim>\<open>src/main.ts\<close> works on JavaScript numbers. Coordinates of traced
  pixels are integers; areas, distances and ratios are modelled as real numbers, that is,
  rounding of the double-precision arithmetic is not part of the model. Every place
  where the source divides by a value that can be zero, or starts from \<^verbatim>\<open>Infinity\<close>,
  is written out.

  \<^verbatim>\<open>interface Point { x: number; y: number }\<close>: the fields are called \<open>px\<close> and
  \<open>py\<close> here. The tracer uses \<open>int Point\<close>, the geometry \<open>real Point\<close>.
\<close>

record 'a Point =
  px :: 'a
  py :: 'a

type_synonym Contour = "real Point list"

text \<open>The bounding box \<^verbatim>\<open>{ x, y, width, height }\<close>.\<close>

record BoundingBox =
  box_x :: real
  box_y :: real
  width :: real
  height :: real

text \<open>The object returned by \<^verbatim>\<open>calculateMetrics\<close>.\<close>

record Metrics =
  area :: real
  perimeter :: real
  boundingBox :: BoundingBox
  center :: "real Point"

datatype ShapeType = Circle | Triangle | Rectangle | Pentagon | Star

text \<open>
  \<^verbatim>\<open>{ type, confidence, ...metrics }\<close>: the spread copies every field of the metrics
  object, \<^verbatim>\<open>perimeter\<close> included.
\<close>

record DetectedShape =
  shape_type :: ShapeType
  confidence :: real
  shape_area :: real
  shape_perimeter :: real
  shape_boundingBox :: BoundingBox
  shape_center :: "real Point"

section \<open>Metrics\<close>

text \<open>
  The loop variables of \<^verbatim>\<open>calculateMetrics\<close>. The four extents start at
  \<^verbatim>\<open>Infinity\<close> and \<^verbatim>\<open>-Infinity\<close>; \<open>None\<close> stands for that initial value, which
  every coordinate replaces in the first iteration.
\<close>

record MetricsAcc =
  minX :: "real option"
  minY :: "real option"
  maxX :: "real option"
  maxY :: "real option"
  acc_area :: real
  acc_perimeter :: real
  sumX :: real
  sumY :: real

definition lower_to :: "real \<Rightarrow> real option \<Rightarrow> real option" where
  \<comment> \<open>\<^verbatim>\<open>if (v < m) m = v\<close>, with \<open>None\<close> for \<^verbatim>\<open>Infinity\<close>\<close>
  "lower_to v m = (case m of None \<Rightarrow> Some v | Some a \<Rightarrow> if v < a then Some v else Some a)"

definition raise_to :: "real \<Rightarrow> real option \<Rightarrow> real option" where
  \<comment> \<open>\<^verbatim>\<open>if (v > m) m = v\<close>, with \<open>None\<close> for \<^verbatim>\<open>-Infinity\<close>\<close>
  "raise_to v m = (case m of None \<Rightarrow> Some v | Some a \<Rightarrow> if v > a then Some v else Some a)"

definition segment_length :: "real Point \<Rightarrow> real Point \<Rightarrow> real" where
  \<comment> \<open>\<^verbatim>\<open>Math.sqrt(Math.pow(p2.x - p1.x, 2) + Math.pow(p2.y - p1.y, 2))\<close>\<close>
  "segment_length p1 p2 = sqrt ((px p2 - px p1)\<^sup>2 + (py p2 - py p1)\<^sup>2)"

definition shoelace_term :: "real Point \<Rightarrow> real Point \<Rightarrow> real" where
  \<comment> \<open>\<^verbatim>\<open>p1.x * p2.y - p2.x * p1.y\<close>\<close>
  "shoelace_term p1 p2 = px p1 * py p2 - px p2 * py p1"

definition metricsStep :: "Contour \<Rightarrow> nat \<Rightarrow> MetricsAcc \<Rightarrow> MetricsAcc" where
  \<comment> \<open>one iteration of the \<^verbatim>\<open>for\<close> loop; \<open>i < length contour\<close> there\<close>
  "metricsStep contour i s =
     (let p1 = contour ! i;
          p2 = contour ! ((i + 1) mod length contour)
      in \<lparr> minX = lower_to (px p1) (minX s),
           minY = lower_to (py p1) (minY s),
           maxX = raise_to (px p1) (maxX s),
           maxY = raise_to (py p1) (maxY s),
           acc_area = acc_area s + shoelace_term p1 p2,
           acc_perimeter = acc_perimeter s + segment_length p1 p2,
           sumX = sumX s + px p1,
           sumY = sumY s + py p1 \<rparr>)"

definition metricsInit :: MetricsAcc where
  "metricsInit = \<lparr> minX = None, minY = None, maxX = None, maxY = None,
                   acc_area = 0, acc_perimeter = 0, sumX = 0, sumY = 0 \<rparr>"

definition metricsLoop :: "Contour \<Rightarrow> MetricsAcc" where
  "metricsLoop contour = fold (metricsStep contour) [0..<length contour] metricsInit"

definition calculateMetrics :: "Contour \<Rightarrow> Metrics" where
  "calculateMetrics contour =
     (if length contour = 0 then
        \<lparr> area = 0, perimeter = 0,
          boundingBox = \<lparr> box_x = 0, box_y = 0, width = 0, height = 0 \<rparr>,
          center = \<lparr> px = 0, py = 0 \<rparr> \<rparr>
      else
        (let s = metricsLoop contour
         in \<lparr> area = \<bar>acc_area s / 2\<bar>,
              perimeter = acc_perimeter s,
              boundingBox = \<lparr> box_x = the (minX s), box_y = the (minY s),
                              width = the (maxX s) - the (minX s),
                              height = the (maxY s) - the (minY s) \<rparr>,
              center = \<lparr> px = sumX s / real (length contour),
                         py = sumY s / real (length contour) \<rparr> \<rparr>))"

section \<open>Transformations of a contour\<close>

text \<open>Moving every point by a fixed offset and scaling every point by a factor, the two
  operations under which the metrics are compared.\<close>

definition translate :: "real \<Rightarrow> real \<Rightarrow> Contour \<Rightarrow> Contour" where
  "translate dx dy contour = map (\<lambda>p. \<lparr> px = px p + dx, py = py p + dy \<rparr>) contour"

definition scale :: "real \<Rightarrow> Contour \<Rightarrow> Contour" where
  "scale k contour = map (\<lambda>p. \<lparr> px = k * px p, py = k * py p \<rparr>) contour"

section \<open>Polyline simplifier\<close>

definition perpendicularDistance :: "real Point \<Rightarrow> real Point \<Rightarrow> real Point \<Rightarrow> real" where
  \<comment> \<open>distance from \<open>point\<close> to the segment \<open>lineStart\<close>--\<open>lineEnd\<close>; the division is
      reached with \<open>lenSq \<noteq> 0\<close> only\<close>
  "perpendicularDistance point lineStart lineEnd =
     (let dx = px lineEnd - px lineStart;
          dy = py lineEnd - py lineStart
      in if dx = 0 \<and> dy = 0 then
           (let dx = px point - px lineStart;
                dy = py point - py lineStart
            in sqrt (dx * dx + dy * dy))
         else
           (let lenSq = dx * dx + dy * dy;
                t = ((px point - px lineStart) * dx + (py point - py lineStart) * dy) / lenSq;
                closestX = (if t < 0 then px lineStart
                            else if t > 1 then px lineEnd
                            else px lineStart + t * dx);
                closestY = (if t < 0 then py lineStart
                            else if t > 1 then py lineEnd
                            else py lineStart + t * dy);
                dx = px point - closestX;
                dy = py point - closestY
            in sqrt (dx * dx + dy * dy)))"

text \<open>
  The search loop of \<^verbatim>\<open>simplifyContour\<close>:
  \<^verbatim>\<open>for (let i = 1; i < end; i++) { d = ...; if (d > dmax) { dmax = d; index = i; } }\<close>.
  Reads \<open>points ! i\<close> with \<open>i < end < length points\<close> only.
\<close>

function farthest :: "Contour \<Rightarrow> nat \<Rightarrow> nat \<Rightarrow> real \<Rightarrow> nat \<Rightarrow> real \<times> nat" where
  "farthest points end i dmax index =
     (if i < end then
        (let d = perpendicularDistance (points ! i) (points ! 0) (points ! end)
         in if d > dmax then farthest points end (i + 1) d i
            else farthest points end (i + 1) dmax index)
      else (dmax, index))"
  by pat_completeness auto
termination
  by (relation "measure (\<lambda>(points, end, i, dmax, index). end - i)") auto

declare farthest.simps [simp del]

text \<open>
  \<^verbatim>\<open>simplifyContour\<close> (Ramer--Douglas--Peucker). The recursion of the source has no
  guard of its own: with a negative \<open>epsilon\<close> and every distance 0 the loop leaves
  \<open>index = 0\<close>, and the second recursive call is on the same list again. Not returning
  is the value \<open>None\<close>.

  \<^verbatim>\<open>points.slice(0, index + 1)\<close> is \<open>take (index + 1) points\<close>,
  \<^verbatim>\<open>points.slice(index)\<close> is \<open>drop index points\<close>, and
  \<^verbatim>\<open>recResults1.slice(0, recResults1.length - 1)\<close> is \<open>take (length r1 - 1) r1\<close>
  (the subtraction is on a length of at least 1 there, or on 0 where \<open>take 0\<close> and
  \<^verbatim>\<open>slice(0, -1)\<close> of the empty array both give the empty list).
\<close>

partial_function (option) simplifyContour :: "Contour \<Rightarrow> real \<Rightarrow> Contour option" where
  "simplifyContour points epsilon =
     (if length points < 3 then Some points
      else if fst (farthest points (length points - 1) 1 0 0) > epsilon then
        do {
          recResults1 \<leftarrow> simplifyContour
            (take (snd (farthest points (length points - 1) 1 0 0) + 1) points) epsilon;
          recResults2 \<leftarrow> simplifyContour
            (drop (snd (farthest points (length points - 1) 1 0 0)) points) epsilon;
          Some (take (length recResults1 - 1) recResults1 @ recResults2)
        }
      else Some [points ! 0, points ! (length points - 1)])"

text \<open>
  The shape of a simplified list, as a predicate on input and output: a list of fewer
  than two points is returned as it is; otherwise the output is the first point, a
  subsequence of the points strictly between the ends, and the last point.
\<close>

definition keeps_ends :: "Contour \<Rightarrow> Contour \<Rightarrow> bool" where
  "keeps_ends pts out \<longleftrightarrow>
     (length pts < 2 \<longrightarrow> out = pts) \<and>
     (2 \<le> length pts \<longrightarrow>
        (\<exists>mid. out = hd pts # mid @ [last pts] \<and> subseq mid (butlast (tl pts))))"

section \<open>Convex hull\<close>

definition crossProduct :: "real Point \<Rightarrow> real Point \<Rightarrow> real Point \<Rightarrow> real" where
  "crossProduct o' a b = (px a - px o') * (py b - py o') - (py a - py o') * (px b - px o')"

text \<open>
  The comparator \<^verbatim>\<open>(a, b) => a.x !== b.x ? a.x - b.x : a.y - b.y\<close> and the stable
  sort by it: every point is put before the first point it is smaller than.
\<close>

definition compareXY :: "real Point \<Rightarrow> real Point \<Rightarrow> real" where
  "compareXY a b = (if px a \<noteq> px b then px a - px b else py a - py b)"

fun insertXY :: "real Point \<Rightarrow> Contour \<Rightarrow> Contour" where
  "insertXY p [] = [p]"
| "insertXY p (q # qs) = (if compareXY p q < 0 then p # q # qs else q # insertXY p qs)"

definition sortXY :: "Contour \<Rightarrow> Contour" where
  "sortXY points = fold insertXY points []"

text \<open>
  \<^verbatim>\<open>while (chain.length >= 2 && crossProduct(chain[len-2], chain[len-1], p) <= 0) chain.pop()\<close>
\<close>

function popWhile :: "Contour \<Rightarrow> real Point \<Rightarrow> Contour" where
  "popWhile chain p =
     (if length chain \<ge> 2 \<and>
         crossProduct (chain ! (length chain - 2)) (chain ! (length chain - 1)) p \<le> 0
      then popWhile (butlast chain) p
      else chain)"
  by pat_completeness auto
termination
  by (relation "measure (\<lambda>(chain, p). length chain)") auto

declare popWhile.simps [simp del]

definition hullPush :: "real Point \<Rightarrow> Contour \<Rightarrow> Contour" where
  \<comment> \<open>the body of both \<^verbatim>\<open>for\<close> loops: pop, then push \<open>p\<close>\<close>
  "hullPush p chain = popWhile chain p @ [p]"

definition calculateConvexHull :: "Contour \<Rightarrow> Contour" where
  "calculateConvexHull points =
     (if length points \<le> 3 then points
      else
        (let sortedPoints = sortXY points;
             lower = fold hullPush sortedPoints [];
             upper = fold hullPush (rev sortedPoints) []
         in butlast lower @ butlast upper))"

section \<open>Classifier\<close>

text \<open>
  Step 1 of \<^verbatim>\<open>classifyShape\<close>. \<^verbatim>\<open>circularity = (4 * Math.PI * area) / (perimeter * perimeter)\<close>
  divides by zero when the perimeter is 0: the quotient is then \<^verbatim>\<open>Infinity\<close> for a
  positive numerator (the test fires, and \<^verbatim>\<open>Math.min(Infinity, 0.99)\<close> is 0.99), and
  \<^verbatim>\<open>NaN\<close> or \<^verbatim>\<open>-Infinity\<close> otherwise (the test does not fire). The result is the
  confidence of the circle when the test fires.
\<close>

definition circleTest :: "Metrics \<Rightarrow> real option" where
  "circleTest metrics =
     (let perimeter = perimeter metrics;
          numerator = 4 * pi * area metrics;
          denominator = perimeter * perimeter
      in if denominator = 0 then (if numerator > 0 then Some 0.99 else None)
         else (let circularity = numerator / denominator
               in if circularity > 0.80 then Some (min circularity 0.99) else None))"

definition withMetrics :: "ShapeType \<Rightarrow> real \<Rightarrow> Metrics \<Rightarrow> DetectedShape" where
  \<comment> \<open>\<^verbatim>\<open>{ type: type, confidence: confidence, ...metrics }\<close>\<close>
  "withMetrics t c metrics =
     \<lparr> shape_type = t, confidence = c, shape_area = area metrics,
       shape_perimeter = perimeter metrics, shape_boundingBox = boundingBox metrics,
       shape_center = center metrics \<rparr>"

definition solidityOf :: "Contour \<Rightarrow> Metrics \<Rightarrow> real" where
  \<comment> \<open>step 2: \<^verbatim>\<open>let solidity = 0; if (hullMetrics.area > 0) solidity = area / hullMetrics.area\<close>\<close>
  "solidityOf contour metrics =
     (let hullPoints = calculateConvexHull contour;
          hullMetrics = calculateMetrics hullPoints
      in if area hullMetrics > 0 then area metrics / area hullMetrics else 0)"

definition correctedVertexCount :: "Contour \<Rightarrow> nat" where
  \<comment> \<open>step 4: one less when first and last vertex are closer than 10\<close>
  "correctedVertexCount vertices =
     (let numVertices = length vertices
      in if numVertices > 1 then
           (let firstPt = vertices ! 0;
                lastPt = vertices ! (numVertices - 1);
                dist = sqrt ((px firstPt - px lastPt)\<^sup>2 + (py firstPt - py lastPt)\<^sup>2)
            in if dist < 10 then numVertices - 1 else numVertices)
         else numVertices)"

definition orOne :: "real \<Rightarrow> real" where
  \<comment> \<open>\<^verbatim>\<open>v || 1\<close>: 0 is the falsy number\<close>
  "orOne v = (if v = 0 then 1 else v)"

definition aspectRatio :: "Metrics \<Rightarrow> real" where
  \<comment> \<open>step 5: \<^verbatim>\<open>Math.max(width / (height || 1), height / (width || 1))\<close>\<close>
  "aspectRatio metrics =
     (let w = width (boundingBox metrics); h = height (boundingBox metrics)
      in max (w / orOne h) (h / orOne w))"

definition decide :: "nat \<Rightarrow> real \<Rightarrow> (ShapeType \<times> real) option" where
  \<comment> \<open>step 6: the \<^verbatim>\<open>switch (numVertices)\<close>; \<open>None\<close> is \<^verbatim>\<open>type === null\<close>\<close>
  "decide numVertices solidity =
     (if numVertices = 3 then
        (if solidity > 0.9 then Some (Triangle, 0.90) else None)
      else if numVertices = 4 then
        (if solidity > 0.9 then Some (Rectangle, 0.92) else None)
      else if numVertices = 5 then
        (if solidity > 0.8 then Some (Pentagon, 0.88)
         else if solidity > 0.3 then Some (Star, 0.82)
         else None)
      else if numVertices = 10 then
        (if solidity < 0.8 then Some (Star, 0.82) else None)
      else None)"

text \<open>
  \<^verbatim>\<open>classifyShape\<close>. The outer \<open>option\<close> is \<open>None\<close> when the call does not return (the
  simplifier is called with \<open>epsilon = 0.06 * perimeter\<close>); the inner one is the
  \<^verbatim>\<open>DetectedShape | null\<close> of the source.
\<close>

definition classifyShape :: "Contour \<Rightarrow> Metrics \<Rightarrow> DetectedShape option option" where
  "classifyShape contour metrics =
     (case circleTest metrics of
        Some c \<Rightarrow> Some (Some (withMetrics Circle c metrics))
      | None \<Rightarrow>
          (let solidity = solidityOf contour metrics;
               epsilon = 0.06 * perimeter metrics
           in do {
                vertices \<leftarrow> simplifyContour contour epsilon;
                (let numVertices = correctedVertexCount vertices
                 in if aspectRatio metrics > 5.0 then Some None
                    else (case decide numVertices solidity of
                            Some (t, c) \<Rightarrow> Some (Some (withMetrics t c metrics))
                          | None \<Rightarrow> Some None))
              }))"

text \<open>
  The ratio named in the description of the classifier, \<open>max (width / height)
  (height / width) > 5\<close>, with the division by zero of JavaScript written out: a positive
  number over 0 is \<^verbatim>\<open>Infinity\<close>, 0 over 0 is \<^verbatim>\<open>NaN\<close>, and \<^verbatim>\<open>Math.max\<close> of anything
  and \<^verbatim>\<open>NaN\<close> is \<^verbatim>\<open>NaN\<close>, which exceeds nothing.
\<close>

definition plainRatioExceeds :: "real \<Rightarrow> real \<Rightarrow> bool" where
  "plainRatioExceeds w h =
     (if w = 0 \<and> h = 0 then False
      else if h = 0 then 0 < w
      else if w = 0 then 0 < h
      else max (w / h) (h / w) > 5)"

section \<open>Contour filter\<close>

type_synonym ContourMetrics = "Contour \<times> Metrics"

definition contourMetricsOf :: "Contour list \<Rightarrow> ContourMetrics list" where
  \<comment> \<open>pass 1 of \<^verbatim>\<open>analyzeContours\<close>: \<^verbatim>\<open>if (metrics.area < 50) continue\<close>\<close>
  "contourMetricsOf contours =
     map (\<lambda>contour. (contour, calculateMetrics contour))
       (filter (\<lambda>contour. \<not> area (calculateMetrics contour) < 50) contours)"

definition centerDist :: "ContourMetrics \<Rightarrow> ContourMetrics \<Rightarrow> real" where
  "centerDist cm1 cm2 =
     (let c1 = center (snd cm1); c2 = center (snd cm2)
      in sqrt ((px c1 - px c2)\<^sup>2 + (py c1 - py c2)\<^sup>2))"

text \<open>
  The inner \<^verbatim>\<open>for (const cm2 of contourMetrics)\<close> of pass 2, for the entry at index \<open>i\<close>.
  Every entry is an object of its own, so \<^verbatim>\<open>cm1 === cm2\<close> compares positions.
\<close>

fun innerScan :: "ContourMetrics list \<Rightarrow> nat \<Rightarrow> nat list \<Rightarrow> bool" where
  "innerScan cms i [] = False"
| "innerScan cms i (j # js) =
     (if i = j then innerScan cms i js
      else if centerDist (cms ! i) (cms ! j) < 15 \<and> area (snd (cms ! j)) > area (snd (cms ! i))
      then True
      else innerScan cms i js)"

definition isInnerContour :: "ContourMetrics list \<Rightarrow> nat \<Rightarrow> bool" where
  "isInnerContour cms i = innerScan cms i [0..<length cms]"

definition outerIndices :: "ContourMetrics list \<Rightarrow> nat list" where
  "outerIndices cms = filter (\<lambda>i. \<not> isInnerContour cms i) [0..<length cms]"

definition outerContoursMetrics :: "ContourMetrics list \<Rightarrow> ContourMetrics list" where
  \<comment> \<open>\<^verbatim>\<open>contourMetrics.filter(cm1 => ...)\<close>\<close>
  "outerContoursMetrics cms = map (\<lambda>i. cms ! i) (outerIndices cms)"

text \<open>Pass 3 pushes every shape that is not \<^verbatim>\<open>null\<close>.\<close>

fun classifyAll :: "ContourMetrics list \<Rightarrow> DetectedShape list option" where
  "classifyAll [] = Some []"
| "classifyAll ((contour, metrics) # rest) =
     do {
       shape \<leftarrow> classifyShape contour metrics;
       shapes \<leftarrow> classifyAll rest;
       Some (case shape of Some s \<Rightarrow> s # shapes | None \<Rightarrow> shapes)
     }"

definition analyzeContours :: "Contour list \<Rightarrow> DetectedShape list option" where
  "analyzeContours contours = classifyAll (outerContoursMetrics (contourMetricsOf contours))"

section \<open>Contour tracer\<close>

text \<open>
  \<^verbatim>\<open>this.width\<close> and \<^verbatim>\<open>this.height\<close> of the detector, and the edge grid
  \<^verbatim>\<open>number[][]\<close>, indexed \<^verbatim>\<open>grid[y][x]\<close>, with cells 0 (background), 255 (edge) and
  128 (visited). \<^verbatim>\<open>traceContour\<close> writes into the grid, so the grid is passed in and
  returned. The rows are arrays of their own (\<^verbatim>\<open>detectShapes\<close> copies every row before
  tracing), so a write changes one cell of one row.
\<close>

record Detector =
  det_width :: int
  det_height :: int

type_synonym Grid = "nat list list"

datatype error = TypeError

definition cell :: "Grid \<Rightarrow> int \<Rightarrow> int \<Rightarrow> error + nat option" where
  \<comment> \<open>\<^verbatim>\<open>grid[y][x]\<close>: a missing row is \<^verbatim>\<open>undefined\<close>, and indexing it throws; a missing
      cell of a row is \<^verbatim>\<open>undefined\<close> (\<open>None\<close>)\<close>
  "cell grid y x =
     (if 0 \<le> y \<and> nat y < length grid then
        (if 0 \<le> x \<and> nat x < length (grid ! nat y)
         then Inr (Some (grid ! nat y ! nat x))
         else Inr None)
      else Inl TypeError)"

definition neighbors :: "int Point list" where
  \<comment> \<open>clockwise: E, SE, S, SW, W, NW, N, NE\<close>
  "neighbors =
     [\<lparr>px = 1, py = 0\<rparr>, \<lparr>px = 1, py = 1\<rparr>, \<lparr>px = 0, py = 1\<rparr>, \<lparr>px = - 1, py = 1\<rparr>,
      \<lparr>px = - 1, py = 0\<rparr>, \<lparr>px = - 1, py = - 1\<rparr>, \<lparr>px = 0, py = - 1\<rparr>, \<lparr>px = 1, py = - 1\<rparr>]"

definition MAX_TRACE :: nat where
  "MAX_TRACE = 20000"

definition capMessage :: string where
  \<comment> \<open>the line written by \<^verbatim>\<open>console.error\<close> after the loop\<close>
  "capMessage = ''Error: Max trace length exceeded.''"

text \<open>
  One run of the inner \<^verbatim>\<open>for (let i = 0; i < neighbors.length; i++)\<close>, over the values
  of \<open>i\<close> still to come: it ends with \<^verbatim>\<open>return contour\<close> at the start pixel, with the
  \<^verbatim>\<open>break\<close> at an accepted pixel, with an exception, or with \<^verbatim>\<open>foundNext\<close> still false.
\<close>

datatype scan_result = BackAtStart | Found "int Point" nat | DeadEnd | Raised error

fun scanNeighbors ::
  "Detector \<Rightarrow> int Point \<Rightarrow> Grid \<Rightarrow> int Point \<Rightarrow> nat \<Rightarrow> nat list \<Rightarrow> scan_result" where
  "scanNeighbors d startPoint grid currentPoint searchStartIndex [] = DeadEnd"
| "scanNeighbors d startPoint grid currentPoint searchStartIndex (i # rest) =
     (let neighborIndex = (searchStartIndex + i) mod length neighbors;
          neighbor = neighbors ! neighborIndex;
          nextX = px currentPoint + px neighbor;
          nextY = py currentPoint + py neighbor
      in if nextX < 0 \<or> nextX \<ge> det_width d \<or> nextY < 0 \<or> nextY \<ge> det_height d then
           scanNeighbors d startPoint grid currentPoint searchStartIndex rest
         else if nextX = px startPoint \<and> nextY = py startPoint then BackAtStart
         else
           (case cell grid nextY nextX of
              Inl e \<Rightarrow> Raised e
            | Inr v \<Rightarrow>
                if v = Some 255 \<or> v = Some 128
                then Found \<lparr>px = nextX, py = nextY\<rparr> neighborIndex
                else scanNeighbors d startPoint grid currentPoint searchStartIndex rest))"

definition markVisited :: "Grid \<Rightarrow> int Point \<Rightarrow> Grid" where
  \<comment> \<open>\<^verbatim>\<open>if (grid[nextY][nextX] === 255) grid[nextY][nextX] = 128\<close>, on an accepted pixel\<close>
  "markVisited grid p =
     (if cell grid (py p) (px p) = Inr (Some 255)
      then grid[nat (py p) := (grid ! nat (py p))[nat (px p) := 128]]
      else grid)"

text \<open>
  What a call leaves behind: the returned contour, the grid as written, the final value
  of \<^verbatim>\<open>traceCount\<close>, the lines sent to \<^verbatim>\<open>console.error\<close>, and the \<^verbatim>\<open>return\<close> that was
  taken.
\<close>

datatype trace_exit = Closed | DeadEndHit | CapExceeded

record TraceResult =
  trace_contour :: "int Point list"
  trace_grid :: Grid
  trace_count :: nat
  trace_log :: "string list"
  trace_exit :: trace_exit

text \<open>
  The \<^verbatim>\<open>while (traceCount++ < MAX_TRACE)\<close> loop. The condition compares the old value
  of the counter and then increments it, so inside the body and after the loop the
  counter is \<open>traceCount + 1\<close>.
\<close>

function walk ::
  "Detector \<Rightarrow> int Point \<Rightarrow> Grid \<Rightarrow> int Point list \<Rightarrow> int Point \<Rightarrow> nat \<Rightarrow> nat
     \<Rightarrow> error + TraceResult" where
  "walk d startPoint grid contour currentPoint searchStartIndex traceCount =
     (if traceCount < MAX_TRACE then
        (case scanNeighbors d startPoint grid currentPoint searchStartIndex
                [0..<length neighbors] of
           Raised e \<Rightarrow> Inl e
         | BackAtStart \<Rightarrow>
             Inr \<lparr> trace_contour = contour, trace_grid = grid, trace_count = traceCount + 1,
                   trace_log = [], trace_exit = Closed \<rparr>
         | Found nextPoint neighborIndex \<Rightarrow>
             walk d startPoint (markVisited grid nextPoint) (contour @ [nextPoint]) nextPoint
               ((neighborIndex + 5) mod 8) (traceCount + 1)
         | DeadEnd \<Rightarrow>
             Inr \<lparr> trace_contour = contour, trace_grid = grid, trace_count = traceCount + 1,
                   trace_log = [], trace_exit = DeadEndHit \<rparr>)
      else
        Inr \<lparr> trace_contour = contour, trace_grid = grid, trace_count = traceCount + 1,
              trace_log = (if traceCount + 1 \<ge> MAX_TRACE
                           then [capMessage] else []),
              trace_exit = CapExceeded \<rparr>)"
  by pat_completeness auto
termination
  by (relation "measure (\<lambda>(d, startPoint, grid, contour, currentPoint, searchStartIndex,
        traceCount). MAX_TRACE - traceCount)") auto

declare walk.simps [simp del]

definition traceContour :: "Detector \<Rightarrow> int Point \<Rightarrow> Grid \<Rightarrow> error + TraceResult" where
  "traceContour d startPoint grid = walk d startPoint grid [startPoint] startPoint 4 0"

section \<open>Properties of the metrics\<close>

text \<open>C9: the empty contour gives zeroed metrics (area, perimeter, the four fields of the
  bounding box and both coordinates of the centre are 0); the function returns a value.\<close>

theorem calculateMetrics_empty:
  "calculateMetrics [] =
     \<lparr> area = 0, perimeter = 0,
       boundingBox = \<lparr> box_x = 0, box_y = 0, width = 0, height = 0 \<rparr>,
       center = \<lparr> px = 0, py = 0 \<rparr> \<rparr>"
  by (simp add: calculateMetrics_def)

lemma acc_area_fold:
  "acc_area (fold (metricsStep c) [0..<n] s) =
     acc_area s + (\<Sum>i<n. shoelace_term (c ! i) (c ! ((i + 1) mod length c)))"
  by (induction n) (simp_all add: metricsStep_def Let_def)

lemma acc_perimeter_fold:
  "acc_perimeter (fold (metricsStep c) [0..<n] s) =
     acc_perimeter s + (\<Sum>i<n. segment_length (c ! i) (c ! ((i + 1) mod length c)))"
  by (induction n) (simp_all add: metricsStep_def Let_def)

lemma cyclic_sum_shift:
  fixes g :: "nat \<Rightarrow> real"
  shows "(\<Sum>i<n. g (Suc i mod n)) = (\<Sum>i<n. g i)"
proof (cases n)
  case 0
  then show ?thesis by simp
next
  case (Suc m)
  have "(\<Sum>i<Suc m. g (Suc i mod Suc m)) = (\<Sum>i<m. g (Suc i mod Suc m)) + g 0"
    by simp
  also have "(\<Sum>i<m. g (Suc i mod Suc m)) = (\<Sum>i<m. g (Suc i))"
    by (rule sum.cong) simp_all
  also have "(\<Sum>i<m. g (Suc i)) + g 0 = (\<Sum>i<Suc m. g i)"
    using sum.lessThan_Suc_shift [of g m] by linarith
  finally show ?thesis using Suc by simp
qed

lemma nth_map_next:
  "i < length c \<Longrightarrow> map f c ! ((i + 1) mod length c) = f (c ! ((i + 1) mod length c))"
  by (rule nth_map) (metis less_nat_zero_code mod_less_divisor neq0_conv)

lemma area_loop_sum:
  "acc_area (metricsLoop c) = (\<Sum>i<length c. shoelace_term (c ! i) (c ! ((i + 1) mod length c)))"
  by (simp add: metricsLoop_def acc_area_fold metricsInit_def)

lemma perimeter_loop_sum:
  "acc_perimeter (metricsLoop c) = (\<Sum>i<length c. segment_length (c ! i) (c ! ((i + 1) mod length c)))"
  by (simp add: metricsLoop_def acc_perimeter_fold metricsInit_def)

lemma area_translate: "acc_area (metricsLoop (translate dx dy c)) = acc_area (metricsLoop c)"
proof -
  let ?n = "length c"
  let ?x = "\<lambda>i. px (c ! i)" and ?y = "\<lambda>i. py (c ! i)"
  have "acc_area (metricsLoop (translate dx dy c)) =
        (\<Sum>i<?n. (?x i + dx) * (?y ((i + 1) mod ?n) + dy) - (?x ((i + 1) mod ?n) + dx) * (?y i + dy))"
    unfolding area_loop_sum
    by (rule sum.cong) (simp_all add: translate_def shoelace_term_def nth_map_next del: One_nat_def)
  also have "\<dots> = (\<Sum>i<?n. (?x i * ?y ((i + 1) mod ?n) - ?x ((i + 1) mod ?n) * ?y i)
                       + dx * (?y ((i + 1) mod ?n) - ?y i) + dy * (?x i - ?x ((i + 1) mod ?n)))"
    by (rule sum.cong) (simp_all add: algebra_simps)
  also have "\<dots> = (\<Sum>i<?n. ?x i * ?y ((i + 1) mod ?n) - ?x ((i + 1) mod ?n) * ?y i)
                 + dx * ((\<Sum>i<?n. ?y ((i + 1) mod ?n)) - (\<Sum>i<?n. ?y i))
                 + dy * ((\<Sum>i<?n. ?x i) - (\<Sum>i<?n. ?x ((i + 1) mod ?n)))"
    by (simp add: sum.distrib sum_subtractf flip: sum_distrib_left)
  also have "\<dots> = (\<Sum>i<?n. ?x i * ?y ((i + 1) mod ?n) - ?x ((i + 1) mod ?n) * ?y i)"
    by (simp add: cyclic_sum_shift [of ?y "length c"] cyclic_sum_shift [of ?x "length c"])
  also have "\<dots> = acc_area (metricsLoop c)"
    by (simp add: area_loop_sum shoelace_term_def)
  finally show ?thesis .
qed

lemma area_scale: "acc_area (metricsLoop (scale k c)) = k\<^sup>2 * acc_area (metricsLoop c)"
  unfolding area_loop_sum sum_distrib_left
  by (rule sum.cong)
    (simp_all add: scale_def shoelace_term_def power2_eq_square algebra_simps nth_map_next
      del: One_nat_def)

lemma segment_length_scale:
  "segment_length \<lparr>px = k * px p, py = k * py p\<rparr> \<lparr>px = k * px q, py = k * py q\<rparr>
     = \<bar>k\<bar> * segment_length p q"
proof -
  have "(k * px q - k * px p)\<^sup>2 + (k * py q - k * py p)\<^sup>2
          = k\<^sup>2 * ((px q - px p)\<^sup>2 + (py q - py p)\<^sup>2)"
    by (simp add: power2_eq_square algebra_simps)
  then show ?thesis
    by (simp add: segment_length_def real_sqrt_mult)
qed

lemma perimeter_scale: "acc_perimeter (metricsLoop (scale k c)) = \<bar>k\<bar> * acc_perimeter (metricsLoop c)"
  unfolding perimeter_loop_sum sum_distrib_left
  by (rule sum.cong)
    (simp_all add: scale_def nth_map_next segment_length_scale del: One_nat_def)

text \<open>Over the real numbers of this model, moving every point by a fixed offset leaves
  the area unchanged, and scaling every point by \<open>k\<close> multiplies the area by \<open>k\<^sup>2\<close> and the
  perimeter by \<open>\<bar>k\<bar>\<close>. The source computes both in double precision, where every product,
  sum and square root is rounded; that rounding is not part of the model.\<close>

lemma metrics_translate_scale_real:
  "area (calculateMetrics (translate dx dy c)) = area (calculateMetrics c) \<and>
   area (calculateMetrics (scale k c)) = k\<^sup>2 * area (calculateMetrics c) \<and>
   perimeter (calculateMetrics (scale k c)) = \<bar>k\<bar> * perimeter (calculateMetrics c)"
  apply (cases "c = []")
  apply (simp add: calculateMetrics_def translate_def scale_def)
  apply (simp add: calculateMetrics_def Let_def area_translate area_scale perimeter_scale abs_mult)
  apply (simp add: translate_def scale_def)
  done

lemma extents_fold:
  "(n = 0 \<and> minX (fold (metricsStep c) [0..<n] metricsInit) = None \<and>
      maxX (fold (metricsStep c) [0..<n] metricsInit) = None \<and>
      minY (fold (metricsStep c) [0..<n] metricsInit) = None \<and>
      maxY (fold (metricsStep c) [0..<n] metricsInit) = None) \<or>
   (\<exists>xl xh yl yh.
      minX (fold (metricsStep c) [0..<n] metricsInit) = Some xl \<and>
      maxX (fold (metricsStep c) [0..<n] metricsInit) = Some xh \<and>
      minY (fold (metricsStep c) [0..<n] metricsInit) = Some yl \<and>
      maxY (fold (metricsStep c) [0..<n] metricsInit) = Some yh \<and>
      (\<forall>i<n. xl \<le> px (c ! i) \<and> px (c ! i) \<le> xh \<and> yl \<le> py (c ! i) \<and> py (c ! i) \<le> yh))"
proof (induction n)
  case 0
  then show ?case by (simp add: metricsInit_def)
next
  case (Suc n)
  let ?s = "fold (metricsStep c) [0..<n] metricsInit"
  have step: "fold (metricsStep c) [0..<Suc n] metricsInit = metricsStep c n ?s" by simp
  from Suc show ?case
  proof
    assume "n = 0 \<and> minX ?s = None \<and> maxX ?s = None \<and> minY ?s = None \<and> maxY ?s = None"
    then show ?thesis unfolding step
      by (simp add: metricsStep_def Let_def lower_to_def raise_to_def metricsInit_def)
  next
    assume "\<exists>xl xh yl yh. minX ?s = Some xl \<and> maxX ?s = Some xh \<and> minY ?s = Some yl \<and>
      maxY ?s = Some yh \<and>
      (\<forall>i<n. xl \<le> px (c ! i) \<and> px (c ! i) \<le> xh \<and> yl \<le> py (c ! i) \<and> py (c ! i) \<le> yh)"
    then obtain xl xh yl yh where s: "minX ?s = Some xl" "maxX ?s = Some xh"
      "minY ?s = Some yl" "maxY ?s = Some yh"
      and b: "\<forall>i<n. xl \<le> px (c ! i) \<and> px (c ! i) \<le> xh \<and> yl \<le> py (c ! i) \<and> py (c ! i) \<le> yh"
      by blast
    have "\<forall>i<Suc n. min xl (px (c ! n)) \<le> px (c ! i) \<and> px (c ! i) \<le> max xh (px (c ! n)) \<and>
             min yl (py (c ! n)) \<le> py (c ! i) \<and> py (c ! i) \<le> max yh (py (c ! n))"
    proof (intro allI impI)
      fix i assume "i < Suc n"
      then consider "i < n" | "i = n" by linarith
      then show "min xl (px (c ! n)) \<le> px (c ! i) \<and> px (c ! i) \<le> max xh (px (c ! n)) \<and>
             min yl (py (c ! n)) \<le> py (c ! i) \<and> py (c ! i) \<le> max yh (py (c ! n))"
      proof cases
        case 1
        with b have "xl \<le> px (c ! i) \<and> px (c ! i) \<le> xh \<and> yl \<le> py (c ! i) \<and> py (c ! i) \<le> yh"
          by blast
        then show ?thesis by (simp add: min_le_iff_disj le_max_iff_disj)
      next
        case 2
        then show ?thesis by simp
      qed
    qed
    moreover have "minX (metricsStep c n ?s) = Some (min xl (px (c ! n)))"
      "maxX (metricsStep c n ?s) = Some (max xh (px (c ! n)))"
      "minY (metricsStep c n ?s) = Some (min yl (py (c ! n)))"
      "maxY (metricsStep c n ?s) = Some (max yh (py (c ! n)))"
      using s by (auto simp: metricsStep_def Let_def lower_to_def raise_to_def min_def max_def)
    ultimately show ?thesis unfolding step by blast
  qed
qed

lemma extents_loop:
  assumes "c \<noteq> []"
  shows "\<exists>xl xh yl yh.
      minX (metricsLoop c) = Some xl \<and> maxX (metricsLoop c) = Some xh \<and>
      minY (metricsLoop c) = Some yl \<and> maxY (metricsLoop c) = Some yh \<and>
      (\<forall>i<length c. xl \<le> px (c ! i) \<and> px (c ! i) \<le> xh \<and> yl \<le> py (c ! i) \<and> py (c ! i) \<le> yh)"
  using extents_fold [of "length c" c] assms unfolding metricsLoop_def by simp

lemma shoelace_constant_y:
  assumes "\<forall>i<length c. py (c ! i) = y0"
  shows "acc_area (metricsLoop c) = 0"
proof -
  let ?n = "length c"
  have "acc_area (metricsLoop c) = (\<Sum>i<?n. y0 * px (c ! i) - y0 * px (c ! (Suc i mod ?n)))"
    unfolding area_loop_sum
  proof (rule sum.cong)
    fix i assume "i \<in> {..<?n}"
    then have i: "i < ?n" by simp
    then have "Suc i mod ?n < ?n" by (metis less_nat_zero_code mod_less_divisor neq0_conv)
    with assms i have "py (c ! i) = y0" "py (c ! (Suc i mod ?n)) = y0" by blast+
    then show "shoelace_term (c ! i) (c ! ((i + 1) mod ?n))
                 = y0 * px (c ! i) - y0 * px (c ! (Suc i mod ?n))"
      by (simp add: shoelace_term_def)
  qed simp
  also have "\<dots> = y0 * (\<Sum>i<?n. px (c ! i)) - y0 * (\<Sum>i<?n. px (c ! (Suc i mod ?n)))"
    by (simp add: sum_subtractf sum_distrib_left)
  also have "\<dots> = 0"
    by (simp add: cyclic_sum_shift [of "\<lambda>i. px (c ! i)" ?n])
  finally show ?thesis .
qed

lemma shoelace_constant_x:
  assumes "\<forall>i<length c. px (c ! i) = x0"
  shows "acc_area (metricsLoop c) = 0"
proof -
  let ?n = "length c"
  have "acc_area (metricsLoop c) = (\<Sum>i<?n. x0 * py (c ! (Suc i mod ?n)) - x0 * py (c ! i))"
    unfolding area_loop_sum
  proof (rule sum.cong)
    fix i assume "i \<in> {..<?n}"
    then have i: "i < ?n" by simp
    then have "Suc i mod ?n < ?n" by (metis less_nat_zero_code mod_less_divisor neq0_conv)
    with assms i have "px (c ! i) = x0" "px (c ! (Suc i mod ?n)) = x0" by blast+
    then show "shoelace_term (c ! i) (c ! ((i + 1) mod ?n))
                 = x0 * py (c ! (Suc i mod ?n)) - x0 * py (c ! i)"
      by (simp add: shoelace_term_def)
  qed simp
  also have "\<dots> = x0 * (\<Sum>i<?n. py (c ! (Suc i mod ?n))) - x0 * (\<Sum>i<?n. py (c ! i))"
    by (simp add: sum_subtractf sum_distrib_left)
  also have "\<dots> = 0"
    by (simp add: cyclic_sum_shift [of "\<lambda>i. py (c ! i)" ?n])
  finally show ?thesis .
qed

lemma zero_side_zero_area:
  assumes "width (boundingBox (calculateMetrics c)) = 0 \<or>
           height (boundingBox (calculateMetrics c)) = 0"
  shows "area (calculateMetrics c) = 0"
proof (cases "c = []")
  case True
  then show ?thesis by (simp add: calculateMetrics_def)
next
  case False
  from extents_loop [OF False] obtain xl xh yl yh where
    e: "minX (metricsLoop c) = Some xl" "maxX (metricsLoop c) = Some xh"
       "minY (metricsLoop c) = Some yl" "maxY (metricsLoop c) = Some yh"
    and b: "\<forall>i<length c. xl \<le> px (c ! i) \<and> px (c ! i) \<le> xh \<and> yl \<le> py (c ! i) \<and> py (c ! i) \<le> yh"
    by blast
  from assms False e have "xh = xl \<or> yh = yl"
    by (simp add: calculateMetrics_def Let_def)
  then have "acc_area (metricsLoop c) = 0"
  proof
    assume "xh = xl"
    with b have "\<forall>i<length c. px (c ! i) = xl" by (metis order_antisym)
    then show ?thesis by (rule shoelace_constant_x)
  next
    assume "yh = yl"
    with b have "\<forall>i<length c. py (c ! i) = yl" by (metis order_antisym)
    then show ?thesis by (rule shoelace_constant_y)
  qed
  then show ?thesis using False by (simp add: calculateMetrics_def Let_def)
qed

lemma segment_length_nonneg: "0 \<le> segment_length p q"
  by (simp add: segment_length_def)

lemma perimeter_nonneg: "0 \<le> perimeter (calculateMetrics c)"
proof (cases "c = []")
  case True
  then show ?thesis by (simp add: calculateMetrics_def)
next
  case False
  have "0 \<le> acc_perimeter (metricsLoop c)"
    unfolding perimeter_loop_sum by (rule sum_nonneg) (rule segment_length_nonneg)
  then show ?thesis using False by (simp add: calculateMetrics_def Let_def)
qed

lemma classified_pairs:
  assumes "(contour, metrics) \<in> set (outerContoursMetrics (contourMetricsOf contours))"
  shows "metrics = calculateMetrics contour \<and> \<not> area metrics < 50"
proof -
  let ?cms = "contourMetricsOf contours"
  from assms obtain i where "i \<in> set (outerIndices ?cms)" and eq: "(contour, metrics) = ?cms ! i"
    by (auto simp: outerContoursMetrics_def)
  then have "i < length ?cms" by (simp add: outerIndices_def)
  then have "(contour, metrics) \<in> set ?cms" using eq by simp
  then show ?thesis by (auto simp: contourMetricsOf_def)
qed


section \<open>Properties of the simplifier\<close>

lemma farthest_spec:
  assumes "farthest points e i dmax index = (dm, ix)"
  shows "dmax \<le> dm \<and>
         (\<forall>j. i \<le> j \<and> j < e \<longrightarrow>
              perpendicularDistance (points ! j) (points ! 0) (points ! e) \<le> dm) \<and>
         ((ix = index \<and> dm = dmax) \<or>
          (i \<le> ix \<and> ix < e \<and>
           perpendicularDistance (points ! ix) (points ! 0) (points ! e) = dm \<and> dmax < dm \<and>
           (\<forall>j. i \<le> j \<and> j < ix \<longrightarrow>
                perpendicularDistance (points ! j) (points ! 0) (points ! e) < dm)))"
  using assms
proof (induction points e i dmax index rule: farthest.induct)
  case (1 points e i dmax index)
  let ?D = "\<lambda>j. perpendicularDistance (points ! j) (points ! 0) (points ! e)"
  show ?case
  proof (cases "i < e")
    case False
    then show ?thesis using "1.prems" by (simp add: farthest.simps)
  next
    case True
    note lt = True
    have split: "\<And>j. i \<le> j \<Longrightarrow> j = i \<or> i + 1 \<le> j" by auto
    show ?thesis
    proof (cases "dmax < ?D i")
      case True
      then have run: "farthest points e (i + 1) (?D i) i = (dm, ix)"
        using "1.prems" lt by (simp add: farthest.simps [of points e i])
      note ih = "1.IH"(1) [OF lt refl True run]
      from ih have A: "?D i \<le> dm"
        and B: "\<And>j. i + 1 \<le> j \<Longrightarrow> j < e \<Longrightarrow> ?D j \<le> dm"
        and C: "(ix = i \<and> dm = ?D i) \<or>
                (i + 1 \<le> ix \<and> ix < e \<and> ?D ix = dm \<and> ?D i < dm \<and>
                 (\<forall>j. i + 1 \<le> j \<and> j < ix \<longrightarrow> ?D j < dm))"
        by blast+
      have g1: "dmax \<le> dm" using True A by linarith
      have g2: "\<forall>j. i \<le> j \<and> j < e \<longrightarrow> ?D j \<le> dm"
        using A B split by blast
      have g3: "i \<le> ix \<and> ix < e \<and> ?D ix = dm \<and> dmax < dm \<and>
                (\<forall>j. i \<le> j \<and> j < ix \<longrightarrow> ?D j < dm)"
        using C
      proof
        assume "ix = i \<and> dm = ?D i"
        then show ?thesis using lt True by auto
      next
        assume c: "i + 1 \<le> ix \<and> ix < e \<and> ?D ix = dm \<and> ?D i < dm \<and>
                 (\<forall>j. i + 1 \<le> j \<and> j < ix \<longrightarrow> ?D j < dm)"
        then have "\<forall>j. i \<le> j \<and> j < ix \<longrightarrow> ?D j < dm"
          using split by blast
        moreover have "dmax < dm" using c True by linarith
        ultimately show ?thesis using c by auto
      qed
      show ?thesis using g1 g2 g3 by blast
    next
      case False
      then have run: "farthest points e (i + 1) dmax index = (dm, ix)"
        using "1.prems" lt by (simp add: farthest.simps [of points e i])
      note ih = "1.IH"(2) [OF lt refl False run]
      from ih have A: "dmax \<le> dm"
        and B: "\<And>j. i + 1 \<le> j \<Longrightarrow> j < e \<Longrightarrow> ?D j \<le> dm"
        and C: "(ix = index \<and> dm = dmax) \<or>
                (i + 1 \<le> ix \<and> ix < e \<and> ?D ix = dm \<and> dmax < dm \<and>
                 (\<forall>j. i + 1 \<le> j \<and> j < ix \<longrightarrow> ?D j < dm))"
        by blast+
      have Di: "?D i \<le> dmax" using False by linarith
      have g2: "\<forall>j. i \<le> j \<and> j < e \<longrightarrow> ?D j \<le> dm"
      proof (intro allI impI)
        fix j assume j: "i \<le> j \<and> j < e"
        then consider "j = i" | "i + 1 \<le> j" using split by blast
        then show "?D j \<le> dm"
        proof cases
          case 1 then show ?thesis using Di A by simp
        next
          case 2 then show ?thesis using B j by blast
        qed
      qed
      have g3: "(ix = index \<and> dm = dmax) \<or>
                (i \<le> ix \<and> ix < e \<and> ?D ix = dm \<and> dmax < dm \<and>
                (\<forall>j. i \<le> j \<and> j < ix \<longrightarrow> ?D j < dm))"
        using C
      proof
        assume "ix = index \<and> dm = dmax"
        then show ?thesis by blast
      next
        assume c: "i + 1 \<le> ix \<and> ix < e \<and> ?D ix = dm \<and> dmax < dm \<and>
                 (\<forall>j. i + 1 \<le> j \<and> j < ix \<longrightarrow> ?D j < dm)"
        have "\<forall>j. i \<le> j \<and> j < ix \<longrightarrow> ?D j < dm"
        proof (intro allI impI)
          fix j assume j: "i \<le> j \<and> j < ix"
          then consider "j = i" | "i + 1 \<le> j" using split by blast
          then show "?D j < dm"
          proof cases
            case 1 then show ?thesis using Di c by simp
          next
            case 2 then show ?thesis using c j by blast
          qed
        qed
        then show ?thesis using c by auto
      qed
      show ?thesis using A g2 g3 by blast
    qed
  qed
qed


lemma subseq_set_mem: "subseq xs ys \<Longrightarrow> x \<in> set xs \<Longrightarrow> x \<in> set ys"
  by (induction rule: list_emb.induct) auto

lemma nth_decomp_left:
  "1 \<le> j \<Longrightarrow> j < Suc (length I1) \<Longrightarrow> (p0 # I1 @ q # I2 @ [pe]) ! j \<in> set I1"
  by (cases j) (simp_all add: nth_append)

lemma nth_decomp_mid: "(p0 # I1 @ q # I2 @ [pe]) ! Suc (length I1) = q"
  by (simp add: nth_append)

lemma nth_decomp_right:
  "Suc (length I1) < j \<Longrightarrow> j < Suc (Suc (length I1 + length I2)) \<Longrightarrow>
     (p0 # I1 @ q # I2 @ [pe]) ! j \<in> set I2"
proof -
  assume a: "Suc (length I1) < j" and b: "j < Suc (Suc (length I1 + length I2))"
  define m where "m = j - Suc (Suc (length I1))"
  have "j = Suc (Suc (length I1 + m))" and "m < length I2"
    using a b by (simp_all add: m_def)
  then show ?thesis by (simp add: nth_append)
qed

lemma nth_decomp_last: "(p0 # I1 @ q # I2 @ [pe]) ! Suc (Suc (length I1 + length I2)) = pe"
  by (simp add: nth_append)

lemma in_left_nth:
  "x \<in> set I1 \<Longrightarrow> \<exists>j. 1 \<le> j \<and> j < Suc (length I1) \<and> (p0 # I1 @ q # I2 @ [pe]) ! j = x"
proof -
  assume "x \<in> set I1"
  then obtain m where "m < length I1" "I1 ! m = x" by (auto simp: in_set_conv_nth)
  then have "1 \<le> Suc m \<and> Suc m < Suc (length I1) \<and> (p0 # I1 @ q # I2 @ [pe]) ! Suc m = x"
    by (simp add: nth_append)
  then show ?thesis by blast
qed

lemma in_right_nth:
  "x \<in> set I2 \<Longrightarrow>
     \<exists>j. Suc (length I1) < j \<and> j < Suc (Suc (length I1 + length I2)) \<and>
         (p0 # I1 @ q # I2 @ [pe]) ! j = x"
proof -
  assume "x \<in> set I2"
  then obtain m where "m < length I2" "I2 ! m = x" by (auto simp: in_set_conv_nth)
  then have "Suc (length I1) < Suc (Suc (length I1 + m)) \<and>
             Suc (Suc (length I1 + m)) < Suc (Suc (length I1 + length I2)) \<and>
             (p0 # I1 @ q # I2 @ [pe]) ! Suc (Suc (length I1 + m)) = x"
    by (simp add: nth_append)
  then show ?thesis by blast
qed

lemma farthest_decomp:
  assumes run: "farthest (p0 # I1 @ q # I2 @ [pe]) (Suc (Suc (length I1 + length I2))) 1 0 0
                  = (dm, Suc (length I1))"
  shows "dm = perpendicularDistance q p0 pe \<and> 0 < dm \<and>
         (\<forall>x\<in>set I1. perpendicularDistance x p0 pe < dm) \<and>
         (\<forall>x\<in>set I2. perpendicularDistance x p0 pe \<le> dm)"
proof -
  let ?L = "p0 # I1 @ q # I2 @ [pe]"
  let ?e = "Suc (Suc (length I1 + length I2))"
  note sp = farthest_spec [OF run]
  have L0: "?L ! 0 = p0" by simp
  have Le: "?L ! ?e = pe" by (rule nth_decomp_last)
  from sp have all: "\<And>j. 1 \<le> j \<Longrightarrow> j < ?e \<Longrightarrow> perpendicularDistance (?L ! j) p0 pe \<le> dm"
    unfolding L0 Le by blast
  from sp have upd: "perpendicularDistance (?L ! Suc (length I1)) p0 pe = dm \<and> 0 < dm \<and>
      (\<forall>j. 1 \<le> j \<and> j < Suc (length I1) \<longrightarrow> perpendicularDistance (?L ! j) p0 pe < dm)"
    unfolding L0 Le by blast
  have a: "dm = perpendicularDistance q p0 pe" using upd by (simp add: nth_append)
  have b: "\<forall>x\<in>set I1. perpendicularDistance x p0 pe < dm"
  proof
    fix x assume "x \<in> set I1"
    from in_left_nth [OF this, of p0 q I2 pe] upd show "perpendicularDistance x p0 pe < dm"
      by blast
  qed
  have c: "\<forall>x\<in>set I2. perpendicularDistance x p0 pe \<le> dm"
  proof
    fix x assume "x \<in> set I2"
    from in_right_nth [OF this, of I1 p0 q pe] obtain j where
      j: "Suc (length I1) < j" "j < ?e" "?L ! j = x" by blast
    then have "1 \<le> j" by simp
    from all [OF this j(2)] j(3) show "perpendicularDistance x p0 pe \<le> dm" by simp
  qed
  show ?thesis using a b c upd by blast
qed

lemma farthest_decomp_conv:
  assumes pos: "0 < perpendicularDistance q p0 pe"
    and left: "\<forall>x\<in>set I1. perpendicularDistance x p0 pe < perpendicularDistance q p0 pe"
    and right: "\<forall>x\<in>set I2. perpendicularDistance x p0 pe \<le> perpendicularDistance q p0 pe"
  shows "farthest (p0 # I1 @ q # I2 @ [pe]) (Suc (Suc (length I1 + length I2))) 1 0 0
           = (perpendicularDistance q p0 pe, Suc (length I1))"
proof -
  let ?L = "p0 # I1 @ q # I2 @ [pe]"
  let ?e = "Suc (Suc (length I1 + length I2))"
  let ?k = "Suc (length I1)"
  obtain dm ix where run: "farthest ?L ?e 1 0 0 = (dm, ix)" by (cases "farthest ?L ?e 1 0 0")
  note sp = farthest_spec [OF run]
  have L0: "?L ! 0 = p0" by simp
  have Le: "?L ! ?e = pe" by (rule nth_decomp_last)
  have Lk: "?L ! ?k = q" by (rule nth_decomp_mid)
  from sp have all: "\<And>j. 1 \<le> j \<Longrightarrow> j < ?e \<Longrightarrow> perpendicularDistance (?L ! j) p0 pe \<le> dm"
    unfolding L0 Le by blast
  have qle: "perpendicularDistance q p0 pe \<le> dm"
    using all [of ?k] Lk by simp
  then have dmpos: "0 < dm" using pos by linarith
  from sp have disj: "(ix = 0 \<and> dm = 0) \<or>
      (1 \<le> ix \<and> ix < ?e \<and> perpendicularDistance (?L ! ix) p0 pe = dm \<and> 0 < dm \<and>
       (\<forall>j. 1 \<le> j \<and> j < ix \<longrightarrow> perpendicularDistance (?L ! j) p0 pe < dm))"
    unfolding L0 Le by blast
  have "\<not> (ix = 0 \<and> dm = 0)" using dmpos by simp
  with disj have upd: "1 \<le> ix \<and> ix < ?e \<and> perpendicularDistance (?L ! ix) p0 pe = dm \<and>
      (\<forall>j. 1 \<le> j \<and> j < ix \<longrightarrow> perpendicularDistance (?L ! j) p0 pe < dm)"
    by blast
  have "ix = ?k"
  proof (rule ccontr)
    assume "ix \<noteq> ?k"
    then consider "ix < ?k" | "?k < ix" by linarith
    then show False
    proof cases
      case 1
      moreover have "1 \<le> ix" using upd by blast
      ultimately have "?L ! ix \<in> set I1" by (rule nth_decomp_left [rotated])
      then have "perpendicularDistance (?L ! ix) p0 pe < perpendicularDistance q p0 pe"
        using left by blast
      then show False using upd qle by linarith
    next
      case 2
      then have "1 \<le> ?k \<and> ?k < ix" by simp
      then have "perpendicularDistance (?L ! ?k) p0 pe < dm" using upd by blast
      then have "perpendicularDistance q p0 pe < dm" unfolding Lk .
      moreover have "ix < ?e" using upd by blast
      with 2 have "?L ! ix \<in> set I2" by (rule nth_decomp_right)
      then have "perpendicularDistance (?L ! ix) p0 pe \<le> perpendicularDistance q p0 pe"
        using right by blast
      ultimately show False using upd by linarith
    qed
  qed
  then have ixk: "ix = ?k" .
  have "perpendicularDistance (?L ! ix) p0 pe = dm" using upd by blast
  then have "dm = perpendicularDistance q p0 pe" unfolding ixk Lk by simp
  then show ?thesis using run ixk by simp
qed

lemma split_interior:
  assumes "1 \<le> ix" and "ix < length pts - 1"
  shows "\<exists>p0 I1 q I2 pe. pts = p0 # I1 @ q # I2 @ [pe] \<and> Suc (length I1) = ix"
proof -
  from assms have n: "ix < length pts" "Suc ix < length pts" by linarith+
  have 1: "pts = take ix pts @ pts ! ix # drop (Suc ix) pts"
    by (rule id_take_nth_drop [OF n(1)])
  have "take ix pts \<noteq> []" using assms n by (cases pts) (auto simp: take_Suc)
  then obtain p0 I1 where 2: "take ix pts = p0 # I1" by (cases "take ix pts") auto
  have "drop (Suc ix) pts \<noteq> []" using n by simp
  then obtain I2 pe where 3: "drop (Suc ix) pts = I2 @ [pe]"
    by (metis append_butlast_last_id)
  have "length (take ix pts) = ix" using n by simp
  then have "Suc (length I1) = ix" using 2 by simp
  moreover have "pts = p0 # I1 @ pts ! ix # I2 @ [pe]" using 1 2 3 by simp
  ultimately show ?thesis by blast
qed

lemma farthest_start:
  assumes "farthest points e 1 0 0 = (dm, ix)"
  shows "(ix = 0 \<and> dm = 0) \<or> (1 \<le> ix \<and> ix < e \<and> 0 < dm)"
  using farthest_spec [OF assms] by blast

lemma idem_short: "length out < 3 \<Longrightarrow> simplifyContour out eps = Some out"
  by (subst simplifyContour.simps) simp

lemma keeps_ends_short: "length pts < 3 \<Longrightarrow> keeps_ends pts pts"
proof -
  assume a: "length pts < 3"
  show ?thesis
  proof (cases "length pts < 2")
    case True then show ?thesis by (simp add: keeps_ends_def)
  next
    case False
    with a have "length pts = 2" by simp
    then obtain a b where "pts = [a, b]"
      by (metis (no_types, opaque_lifting) One_nat_def Suc_1 length_0_conv length_Suc_conv)
    then show ?thesis by (simp add: keeps_ends_def)
  qed
qed

lemma keeps_ends_ends: "3 \<le> length pts \<Longrightarrow> keeps_ends pts [pts ! 0, pts ! (length pts - 1)]"
proof -
  assume a: "3 \<le> length pts"
  then have "pts \<noteq> []" by auto
  then have "hd pts = pts ! 0" "last pts = pts ! (length pts - 1)"
    by (simp_all add: hd_conv_nth last_conv_nth)
  then show ?thesis using a by (simp add: keeps_ends_def)
qed

lemma unfold_split:
  assumes run: "farthest out (length out - 1) 1 0 0 = (dm, k)"
    and big: "eps < dm" and len: "3 \<le> length out"
    and i1: "simplifyContour (take (k + 1) out) eps = Some r1"
    and i2: "simplifyContour (drop k out) eps = Some r2"
  shows "simplifyContour out eps = Some (take (length r1 - 1) r1 @ r2)"
proof -
  have "\<not> length out < 3" using len by simp
  then show ?thesis
    by (subst simplifyContour.simps) (simp only: if_False if_True run fst_conv snd_conv big i1 i2 bind.bind_lunit)
qed

lemma split_step:
  assumes r1: "keeps_ends (p0 # I1 @ [q]) r1" and i1: "simplifyContour r1 eps = Some r1"
    and r2: "keeps_ends (q # I2 @ [pe]) r2" and i2: "simplifyContour r2 eps = Some r2"
    and run: "farthest (p0 # I1 @ q # I2 @ [pe]) (Suc (Suc (length I1 + length I2))) 1 0 0
                = (dm, Suc (length I1))"
    and big: "eps < dm"
  shows "keeps_ends (p0 # I1 @ q # I2 @ [pe]) (take (length r1 - 1) r1 @ r2) \<and>
         simplifyContour (take (length r1 - 1) r1 @ r2) eps = Some (take (length r1 - 1) r1 @ r2)"
proof -
  from r1 obtain m1 where m1: "r1 = p0 # m1 @ [q]" "subseq m1 I1"
    by (auto simp: keeps_ends_def)
  from r2 obtain m2 where m2: "r2 = q # m2 @ [pe]" "subseq m2 I2"
    by (auto simp: keeps_ends_def)
  let ?out = "p0 # m1 @ q # m2 @ [pe]"
  have out: "take (length r1 - 1) r1 @ r2 = ?out" using m1 m2 by simp
  have "subseq (m1 @ q # m2) (I1 @ q # I2)"
    using m1(2) m2(2) by (intro list_emb_append_mono) auto
  moreover have "butlast (I1 @ q # I2 @ [pe]) = I1 @ q # I2"
    by (simp add: butlast_append)
  ultimately have sh: "keeps_ends (p0 # I1 @ q # I2 @ [pe]) ?out"
    by (simp add: keeps_ends_def)
  note fd = farthest_decomp [OF run]
  have dq: "dm = perpendicularDistance q p0 pe" and pos: "0 < perpendicularDistance q p0 pe"
    using fd by blast+
  have left: "\<forall>x\<in>set m1. perpendicularDistance x p0 pe < perpendicularDistance q p0 pe"
    using fd subseq_set_mem [OF m1(2)] by blast
  have right: "\<forall>x\<in>set m2. perpendicularDistance x p0 pe \<le> perpendicularDistance q p0 pe"
    using fd subseq_set_mem [OF m2(2)] by blast
  note conv = farthest_decomp_conv [OF pos left right]
  have len: "length ?out - 1 = Suc (Suc (length m1 + length m2))" by simp
  have run': "farthest ?out (length ?out - 1) 1 0 0 = (dm, Suc (length m1))"
    unfolding len dq by (rule conv)
  have t: "take (Suc (length m1) + 1) ?out = r1" using m1 by simp
  have d: "drop (Suc (length m1)) ?out = r2" using m2 by simp
  have l3: "3 \<le> length ?out" by simp
  have b1: "take (length r1 - 1) r1 = p0 # m1" using m1 by simp
  have "simplifyContour ?out eps = Some (take (length r1 - 1) r1 @ r2)"
    by (rule unfold_split [OF run' big l3]) (simp_all only: t d i1 i2)
  then have "simplifyContour ?out eps = Some ?out" unfolding out .
  then show ?thesis using sh out by simp
qed

lemma simplify_keeps_ends_idem:
  assumes "simplifyContour pts eps = Some out"
  shows "keeps_ends pts out \<and> simplifyContour out eps = Some out"
  using assms
proof (induction pts eps out rule: simplifyContour.raw_induct [rotated, consumes 1])
  case (1 f pts eps out)
  note body = "1.hyps"
  show ?case
  proof (cases "length pts < 3")
    case True
    then have "out = pts" using body by simp
    then show ?thesis using True keeps_ends_short idem_short by blast
  next
    case False
    note long = False
    obtain dm ix where run: "farthest pts (length pts - 1) 1 0 0 = (dm, ix)"
      by (cases "farthest pts (length pts - 1) 1 0 0")
    show ?thesis
    proof (cases "eps < dm")
      case False
      then have "out = [pts ! 0, pts ! (length pts - 1)]"
        using body by (simp only: long run fst_conv if_False option.inject)
      moreover have "3 \<le> length pts" using long by simp
      ultimately show ?thesis using keeps_ends_ends idem_short [of "[pts ! 0, pts ! (length pts - 1)]" eps]
        by simp
    next
      case True
      have "f (take (ix + 1) pts) eps \<bind>
              (\<lambda>r1. f (drop ix pts) eps \<bind> (\<lambda>r2. Some (take (length r1 - 1) r1 @ r2)))
            = Some out"
        using body by (simp only: long run True fst_conv snd_conv if_False if_True)
      then obtain r1 r2 where
        f1: "f (take (ix + 1) pts) eps = Some r1" and
        f2: "f (drop ix pts) eps = Some r2" and
        out: "out = take (length r1 - 1) r1 @ r2"
        by (auto simp: bind_eq_Some_conv)
      note ih1 = "1.IH" [OF f1] and ih2 = "1.IH" [OF f2]
      from farthest_start [OF run] consider "ix = 0" | "1 \<le> ix \<and> ix < length pts - 1"
        by blast
      then show ?thesis
      proof cases
        case 1
        have "length (take (ix + 1) pts) < 2" using 1 by simp
        then have "r1 = take (ix + 1) pts" using ih1 by (simp add: keeps_ends_def)
        then have "length r1 - 1 = 0" using 1 by simp
        then have "out = r2" using out by simp
        then show ?thesis using ih2 1 by simp
      next
        case 2
        then obtain p0 I1 q I2 pe where
          dec: "pts = p0 # I1 @ q # I2 @ [pe]" and ix: "Suc (length I1) = ix"
          using split_interior [of ix pts] by blast
        have t: "take (ix + 1) pts = p0 # I1 @ [q]" unfolding dec ix [symmetric] by simp
        have d: "drop ix pts = q # I2 @ [pe]" unfolding dec ix [symmetric] by simp
        have e: "length pts - 1 = Suc (Suc (length I1 + length I2))" unfolding dec by simp
        have run': "farthest (p0 # I1 @ q # I2 @ [pe]) (Suc (Suc (length I1 + length I2))) 1 0 0
                      = (dm, Suc (length I1))"
          using run unfolding e ix [symmetric] unfolding dec .
        have s1: "keeps_ends (p0 # I1 @ [q]) r1" and i1: "simplifyContour r1 eps = Some r1"
          using ih1 unfolding t by blast+
        have s2: "keeps_ends (q # I2 @ [pe]) r2" and i2: "simplifyContour r2 eps = Some r2"
          using ih2 unfolding d by blast+
        from split_step [OF s1 i1 s2 i2 run' True] show ?thesis
          unfolding out dec .
      qed
    qed
  qed
qed

lemma simplify_total: "0 \<le> eps \<Longrightarrow> \<exists>out. simplifyContour pts eps = Some out"
proof (induction pts rule: length_induct)
  case (1 pts)
  note nonneg = "1.prems"
  show ?case
  proof (cases "length pts < 3")
    case True
    then show ?thesis using idem_short by blast
  next
    case False
    note long = False
    obtain dm ix where run: "farthest pts (length pts - 1) 1 0 0 = (dm, ix)"
      by (cases "farthest pts (length pts - 1) 1 0 0")
    show ?thesis
    proof (cases "eps < dm")
      case False
      have "simplifyContour pts eps = Some [pts ! 0, pts ! (length pts - 1)]"
        by (subst simplifyContour.simps) (simp only: long run False fst_conv if_False)
      then show ?thesis by blast
    next
      case True
      then have "dm \<noteq> 0" using nonneg by simp
      with farthest_start [OF run] have ix: "1 \<le> ix" "ix < length pts - 1" by blast+
      then have "length (take (ix + 1) pts) < length pts" "length (drop ix pts) < length pts"
        by simp_all
      with "1.IH" nonneg obtain r1 r2 where
        "simplifyContour (take (ix + 1) pts) eps = Some r1"
        "simplifyContour (drop ix pts) eps = Some r2"
        by blast
      moreover have "3 \<le> length pts" using long by simp
      ultimately show ?thesis using unfold_split [OF run True] by blast
    qed
  qed
qed

lemma farthest_three_origin:
  "farthest [\<lparr>px = 0, py = 0\<rparr>, \<lparr>px = 0, py = 0\<rparr>, \<lparr>px = 0, py = 0\<rparr>]
     (length [\<lparr>px = 0::real, py = 0\<rparr>, \<lparr>px = 0, py = 0\<rparr>, \<lparr>px = 0, py = 0\<rparr>] - 1) 1 0 0
     = (0, 0)"
  by (simp add: farthest.simps perpendicularDistance_def)

lemma simplify_diverges_aux:
  assumes "simplifyContour pts eps = Some out"
  shows "\<not> (pts = [\<lparr>px = 0, py = 0\<rparr>, \<lparr>px = 0, py = 0\<rparr>, \<lparr>px = 0, py = 0\<rparr>] \<and> eps = -1)"
  using assms
proof (induction pts eps out rule: simplifyContour.raw_induct [rotated, consumes 1])
  case (1 f pts eps out)
  show ?case
  proof
    assume a: "pts = [\<lparr>px = 0, py = 0\<rparr>, \<lparr>px = 0, py = 0\<rparr>, \<lparr>px = 0, py = 0\<rparr>] \<and> eps = -1"
    have n3: "\<not> length [\<lparr>px = 0::real, py = 0\<rparr>, \<lparr>px = 0, py = 0\<rparr>, \<lparr>px = 0, py = 0\<rparr>] < 3"
      and neg: "(- 1 :: real) < 0" by simp_all
    from a have p: "pts = [\<lparr>px = 0, py = 0\<rparr>, \<lparr>px = 0, py = 0\<rparr>, \<lparr>px = 0, py = 0\<rparr>]"
      and e: "eps = - 1" by blast+
    have "f (take (0 + 1) pts) eps \<bind>
            (\<lambda>r1. f (drop 0 pts) eps \<bind> (\<lambda>r2. Some (take (length r1 - 1) r1 @ r2)))
          = Some out"
      using "1.hyps" unfolding p e
      by (simp only: n3 neg farthest_three_origin fst_conv snd_conv if_False if_True)
    then obtain r2 where "f pts eps = Some r2"
      by (auto simp: bind_eq_Some_conv)
    from "1.IH" [OF this] a show False by blast
  qed
qed

text \<open>With the tolerance \<open>-1\<close> and three equal points every distance is 0, the search
  loop leaves \<open>index = 0\<close>, and the second recursive call is on the same three points
  again: the call does not return.\<close>

theorem simplifyContour_negative_epsilon_diverges:
  "simplifyContour [\<lparr>px = 0, py = 0\<rparr>, \<lparr>px = 0, py = 0\<rparr>, \<lparr>px = 0, py = 0\<rparr>] (-1) = None"
  using simplify_diverges_aux by (cases "simplifyContour [\<lparr>px = 0, py = 0\<rparr>, \<lparr>px = 0, py = 0\<rparr>, \<lparr>px = 0, py = 0\<rparr>] (-1)") auto

lemma unfold_ends:
  assumes run: "farthest out (length out - 1) 1 0 0 = (dm, k)"
    and small: "\<not> eps < dm" and len: "3 \<le> length out"
  shows "simplifyContour out eps = Some [out ! 0, out ! (length out - 1)]"
proof -
  have "\<not> length out < 3" using len by simp
  then show ?thesis
    by (subst simplifyContour.simps) (simp only: if_False run fst_conv small)
qed

lemma keeps_ends_subseq:
  assumes "pts \<noteq> []" and "keeps_ends pts out"
  shows "out \<noteq> [] \<and> subseq out pts \<and> hd out = hd pts \<and> last out = last pts"
proof (cases "length pts < 2")
  case True
  then have "out = pts" using assms(2) by (simp add: keeps_ends_def)
  then show ?thesis using assms(1) by simp
next
  case False
  then obtain mid where out: "out = hd pts # mid @ [last pts]"
    and sub: "subseq mid (butlast (tl pts))"
    using assms(2) by (auto simp: keeps_ends_def)
  have "tl pts \<noteq> []" using False by (cases pts) auto
  then have "pts = hd pts # butlast (tl pts) @ [last pts]"
    using assms(1) by (cases pts) simp_all
  moreover have "subseq (hd pts # mid @ [last pts]) (hd pts # butlast (tl pts) @ [last pts])"
    using sub by simp
  ultimately have "subseq out pts" using out by simp
  then show ?thesis using out by simp
qed

lemma example_top:
  "farthest [\<lparr>px = 0, py = 0\<rparr>, \<lparr>px = 1, py = 0\<rparr>, \<lparr>px = 5, py = 4\<rparr>, \<lparr>px = 10, py = 0\<rparr>]
     (length [\<lparr>px = 0::real, py = 0\<rparr>, \<lparr>px = 1, py = 0\<rparr>, \<lparr>px = 5, py = 4\<rparr>, \<lparr>px = 10, py = 0\<rparr>] - 1)
     1 0 0 = (sqrt 16, 2)"
  by (simp add: farthest.simps perpendicularDistance_def)

lemma example_left:
  "farthest [\<lparr>px = 0, py = 0\<rparr>, \<lparr>px = 1, py = 0\<rparr>, \<lparr>px = 5, py = 4\<rparr>]
     (length [\<lparr>px = 0::real, py = 0\<rparr>, \<lparr>px = 1, py = 0\<rparr>, \<lparr>px = 5, py = 4\<rparr>] - 1)
     1 0 0 = (sqrt (656 / 1681), 1)"
  by (simp add: farthest.simps perpendicularDistance_def)

lemma example_first_run:
  "simplifyContour [\<lparr>px = 0, py = 0\<rparr>, \<lparr>px = 1, py = 0\<rparr>, \<lparr>px = 5, py = 4\<rparr>, \<lparr>px = 10, py = 0\<rparr>] 1
     = Some [\<lparr>px = 0, py = 0\<rparr>, \<lparr>px = 5, py = 4\<rparr>, \<lparr>px = 10, py = 0\<rparr>]"
proof -
  have l: "simplifyContour [\<lparr>px = 0, py = 0\<rparr>, \<lparr>px = 1, py = 0\<rparr>, \<lparr>px = 5, py = 4\<rparr>] 1
             = Some [\<lparr>px = 0, py = 0\<rparr>, \<lparr>px = 5, py = 4\<rparr>]"
    using unfold_ends [OF example_left, of 1] by simp
  have r: "simplifyContour [\<lparr>px = 5, py = 4\<rparr>, \<lparr>px = 10, py = 0\<rparr>] 1
             = Some [\<lparr>px = 5, py = 4\<rparr>, \<lparr>px = 10, py = 0\<rparr>]"
    by (rule idem_short) simp
  show ?thesis
    using unfold_split [OF example_top, of 1, simplified, OF l r] by simp
qed

text \<open>C7: the simplifier is idempotent. For a tolerance \<open>epsilon \<ge> 0\<close> the recursion
  returns, and whenever a run returns a list, running the simplifier again on that list
  with the same \<open>epsilon\<close> returns the same list.\<close>

theorem simplifyContour_idempotent:
  "(0 \<le> epsilon \<longrightarrow> (\<exists>out. simplifyContour points epsilon = Some out)) \<and>
   (\<forall>out. simplifyContour points epsilon = Some out \<longrightarrow>
      simplifyContour out epsilon = Some out)"
  using simplify_total [of epsilon points] simplify_keeps_ends_idem [of points epsilon]
  by blast

text \<open>At the four points (0,0), (1,0), (5,4), (10,0) with tolerance 1 the point (1,0) is
  dropped, and the three points that remain are returned again by a second run.\<close>

theorem simplifyContour_idempotent_witness:
  "(0::real) \<le> 1 \<and>
   simplifyContour [\<lparr>px = 0, py = 0\<rparr>, \<lparr>px = 1, py = 0\<rparr>, \<lparr>px = 5, py = 4\<rparr>, \<lparr>px = 10, py = 0\<rparr>] 1
     = Some [\<lparr>px = 0, py = 0\<rparr>, \<lparr>px = 5, py = 4\<rparr>, \<lparr>px = 10, py = 0\<rparr>] \<and>
   simplifyContour [\<lparr>px = 0, py = 0\<rparr>, \<lparr>px = 5, py = 4\<rparr>, \<lparr>px = 10, py = 0\<rparr>] 1
     = Some [\<lparr>px = 0, py = 0\<rparr>, \<lparr>px = 5, py = 4\<rparr>, \<lparr>px = 10, py = 0\<rparr>]"
  using simplifyContour_idempotent
    [of 1 "[\<lparr>px = 0, py = 0\<rparr>, \<lparr>px = 1, py = 0\<rparr>, \<lparr>px = 5, py = 4\<rparr>, \<lparr>px = 10, py = 0\<rparr>]"]
    example_first_run
  by simp

text \<open>C10: for a non-empty point list the output of the simplifier is a subsequence of
  the input that starts with the input's first point and ends with its last point; for
  \<open>epsilon \<ge> 0\<close> there is such an output.\<close>

theorem simplifyContour_subseq_ends:
  "points \<noteq> [] \<Longrightarrow>
     (0 \<le> epsilon \<longrightarrow> (\<exists>out. simplifyContour points epsilon = Some out)) \<and>
     (\<forall>out. simplifyContour points epsilon = Some out \<longrightarrow>
        out \<noteq> [] \<and> subseq out points \<and> hd out = hd points \<and> last out = last points)"
  using simplify_total [of epsilon points] simplify_keeps_ends_idem [of points epsilon]
    keeps_ends_subseq [of points]
  by blast

theorem simplifyContour_subseq_ends_witness:
  "[\<lparr>px = 0, py = 0\<rparr>, \<lparr>px = 1, py = 0\<rparr>, \<lparr>px = 5, py = 4\<rparr>, \<lparr>px = 10, py = 0::real\<rparr>] \<noteq> [] \<and>
   simplifyContour [\<lparr>px = 0, py = 0\<rparr>, \<lparr>px = 1, py = 0\<rparr>, \<lparr>px = 5, py = 4\<rparr>, \<lparr>px = 10, py = 0\<rparr>] 1
     = Some [\<lparr>px = 0, py = 0\<rparr>, \<lparr>px = 5, py = 4\<rparr>, \<lparr>px = 10, py = 0\<rparr>] \<and>
   subseq [\<lparr>px = 0, py = 0\<rparr>, \<lparr>px = 5, py = 4\<rparr>, \<lparr>px = 10, py = 0::real\<rparr>]
     [\<lparr>px = 0, py = 0\<rparr>, \<lparr>px = 1, py = 0\<rparr>, \<lparr>px = 5, py = 4\<rparr>, \<lparr>px = 10, py = 0\<rparr>]"
  using simplifyContour_subseq_ends
    [of "[\<lparr>px = 0, py = 0\<rparr>, \<lparr>px = 1, py = 0\<rparr>, \<lparr>px = 5, py = 4\<rparr>, \<lparr>px = 10, py = 0\<rparr>]" 1]
    example_first_run
  by simp


section \<open>Properties of the classifier\<close>

lemma classifyShape_after_simplify:
  assumes "circleTest metrics = None"
    and "simplifyContour contour (0.06 * perimeter metrics) = Some vertices"
  shows "classifyShape contour metrics =
           (if aspectRatio metrics > 5 then Some None
            else (case decide (correctedVertexCount vertices) (solidityOf contour metrics) of
                    Some (t, c) \<Rightarrow> Some (Some (withMetrics t c metrics))
                  | None \<Rightarrow> Some None))"
  using assms by (simp add: classifyShape_def Let_def)

text \<open>C1: a contour that reaches the last step of \<open>classifyShape\<close> (the circularity
  test did not fire, the simplifier returned its vertices, the aspect-ratio rejection did
  not fire) is classified by its corrected vertex count \<open>n\<close> and its solidity \<open>s\<close>:
  triangle 0.90 for \<open>n = 3\<close>, \<open>s > 0.9\<close>; rectangle 0.92 for \<open>n = 4\<close>, \<open>s > 0.9\<close>;
  pentagon 0.88 for \<open>n = 5\<close>, \<open>s > 0.8\<close>; star 0.82 for \<open>n = 5\<close>, \<open>0.3 < s \<le> 0.8\<close>;
  star 0.82 for \<open>n = 10\<close>, \<open>s < 0.8\<close>; no shape for every other combination.\<close>

theorem classifyShape_decision_table:
  assumes "circleTest metrics = None"
    and "simplifyContour contour (0.06 * perimeter metrics) = Some vertices"
    and "\<not> aspectRatio metrics > 5"
    and "n = correctedVertexCount vertices"
    and "s = solidityOf contour metrics"
  shows "(n = 3 \<and> s > 0.9 \<longrightarrow>
            classifyShape contour metrics =
              Some (Some \<lparr> shape_type = Triangle, confidence = 0.90,
                           shape_area = area metrics, shape_perimeter = perimeter metrics,
                           shape_boundingBox = boundingBox metrics,
                           shape_center = center metrics \<rparr>)) \<and>
         (n = 4 \<and> s > 0.9 \<longrightarrow>
            classifyShape contour metrics =
              Some (Some \<lparr> shape_type = Rectangle, confidence = 0.92,
                           shape_area = area metrics, shape_perimeter = perimeter metrics,
                           shape_boundingBox = boundingBox metrics,
                           shape_center = center metrics \<rparr>)) \<and>
         (n = 5 \<and> s > 0.8 \<longrightarrow>
            classifyShape contour metrics =
              Some (Some \<lparr> shape_type = Pentagon, confidence = 0.88,
                           shape_area = area metrics, shape_perimeter = perimeter metrics,
                           shape_boundingBox = boundingBox metrics,
                           shape_center = center metrics \<rparr>)) \<and>
         (n = 5 \<and> 0.3 < s \<and> s \<le> 0.8 \<longrightarrow>
            classifyShape contour metrics =
              Some (Some \<lparr> shape_type = Star, confidence = 0.82,
                           shape_area = area metrics, shape_perimeter = perimeter metrics,
                           shape_boundingBox = boundingBox metrics,
                           shape_center = center metrics \<rparr>)) \<and>
         (n = 10 \<and> s < 0.8 \<longrightarrow>
            classifyShape contour metrics =
              Some (Some \<lparr> shape_type = Star, confidence = 0.82,
                           shape_area = area metrics, shape_perimeter = perimeter metrics,
                           shape_boundingBox = boundingBox metrics,
                           shape_center = center metrics \<rparr>)) \<and>
         (\<not> (n = 3 \<and> s > 0.9) \<and> \<not> (n = 4 \<and> s > 0.9) \<and> \<not> (n = 5 \<and> s > 0.8) \<and>
          \<not> (n = 5 \<and> 0.3 < s \<and> s \<le> 0.8) \<and> \<not> (n = 10 \<and> s < 0.8) \<longrightarrow>
            classifyShape contour metrics = Some None)"
  unfolding classifyShape_after_simplify [OF assms(1,2)] assms(4,5) [symmetric]
  using assms(3) by (auto simp: decide_def withMetrics_def)

text \<open>C4: with a positive perimeter and a circularity \<open>4 \<pi> area / perimeter\<^sup>2\<close> above 0.80,
  \<open>classifyShape\<close> returns a circle with confidence \<open>min circularity 0.99\<close> and the
  metrics it was given, whatever the contour is: no later step is consulted.\<close>

theorem classifyShape_circle:
  assumes "0 < perimeter metrics"
    and "4 * pi * area metrics / (perimeter metrics * perimeter metrics) > 0.80"
  shows "classifyShape contour metrics =
           Some (Some \<lparr> shape_type = Circle,
                        confidence = min (4 * pi * area metrics / (perimeter metrics * perimeter metrics)) 0.99,
                        shape_area = area metrics, shape_perimeter = perimeter metrics,
                        shape_boundingBox = boundingBox metrics, shape_center = center metrics \<rparr>)"
  using assms by (simp add: classifyShape_def circleTest_def Let_def withMetrics_def)

lemma aspect_reject_guarded:
  assumes "circleTest metrics = None"
    and "simplifyContour contour (0.06 * perimeter metrics) = Some vertices"
    and "aspectRatio metrics > 5"
  shows "classifyShape contour metrics = Some None"
  unfolding classifyShape_after_simplify [OF assms(1,2)] using assms(3) by simp

lemma pi_ge_three: "3 \<le> pi"
proof -
  have "sin (pi / 6) \<le> pi / 6" by (rule sin_x_le_x) simp
  then show ?thesis by (simp add: sin_30)
qed

lemma sqrt_of_square: "0 \<le> y \<Longrightarrow> x = y * y \<Longrightarrow> sqrt x = y"
  by simp

lemma sqrt_values:
  "sqrt 16 = 4" "sqrt 25 = 5" "sqrt 36 = 6" "sqrt 100 = 10" "sqrt 900 = 30"
  "sqrt 1600 = 40" "sqrt 2500 = 50" "sqrt 3600 = 60"
  by (rule sqrt_of_square; simp)+

lemma metrics_octagon:
  "calculateMetrics [\<lparr>px = 3, py = 0\<rparr>, \<lparr>px = 9, py = 0\<rparr>, \<lparr>px = 12, py = 4\<rparr>, \<lparr>px = 12, py = 8\<rparr>,
                     \<lparr>px = 9, py = 12\<rparr>, \<lparr>px = 3, py = 12\<rparr>, \<lparr>px = 0, py = 8\<rparr>, \<lparr>px = 0, py = 4\<rparr>]
     = \<lparr> area = 120, perimeter = 40,
         boundingBox = \<lparr> box_x = 0, box_y = 0, width = 12, height = 12 \<rparr>,
         center = \<lparr> px = 6, py = 6 \<rparr> \<rparr>"
  by (simp add: calculateMetrics_def metricsLoop_def metricsStep_def metricsInit_def Let_def
      upt_rec lower_to_def raise_to_def shoelace_term_def segment_length_def sqrt_values)

lemma metrics_triangle:
  "calculateMetrics [\<lparr>px = 0, py = 0\<rparr>, \<lparr>px = 40, py = 0\<rparr>, \<lparr>px = 0, py = 30\<rparr>]
     = \<lparr> area = 600, perimeter = 120,
         boundingBox = \<lparr> box_x = 0, box_y = 0, width = 40, height = 30 \<rparr>,
         center = \<lparr> px = 40 / 3, py = 10 \<rparr> \<rparr>"
  by (simp add: calculateMetrics_def metricsLoop_def metricsStep_def metricsInit_def Let_def
      upt_rec lower_to_def raise_to_def shoelace_term_def segment_length_def sqrt_values)

lemma farthest_triangle:
  "farthest [\<lparr>px = 0, py = 0\<rparr>, \<lparr>px = 40, py = 0\<rparr>, \<lparr>px = 0, py = 30\<rparr>]
     (length [\<lparr>px = 0::real, py = 0\<rparr>, \<lparr>px = 40, py = 0\<rparr>, \<lparr>px = 0, py = 30\<rparr>] - 1) 1 0 0
     = (40, 1)"
  by (simp add: farthest.simps perpendicularDistance_def sqrt_values)

lemma simplify_triangle:
  "simplifyContour [\<lparr>px = 0, py = 0\<rparr>, \<lparr>px = 40, py = 0\<rparr>, \<lparr>px = 0, py = 30\<rparr>] (36 / 5)
     = Some [\<lparr>px = 0, py = 0\<rparr>, \<lparr>px = 40, py = 0\<rparr>, \<lparr>px = 0, py = 30\<rparr>]"
proof -
  have l: "simplifyContour [\<lparr>px = 0, py = 0\<rparr>, \<lparr>px = 40, py = 0\<rparr>] (36 / 5)
             = Some [\<lparr>px = 0, py = 0\<rparr>, \<lparr>px = 40, py = 0\<rparr>]"
    by (rule idem_short) simp
  have r: "simplifyContour [\<lparr>px = 40, py = 0\<rparr>, \<lparr>px = 0, py = 30\<rparr>] (36 / 5)
             = Some [\<lparr>px = 40, py = 0\<rparr>, \<lparr>px = 0, py = 30\<rparr>]"
    by (rule idem_short) simp
  have big: "36 / 5 < (40::real)" by simp
  show ?thesis
    using unfold_split [OF farthest_triangle big, simplified, OF l r] by simp
qed

lemma count_triangle:
  "correctedVertexCount [\<lparr>px = 0, py = 0\<rparr>, \<lparr>px = 40, py = 0\<rparr>, \<lparr>px = 0, py = 30\<rparr>] = 3"
  by (simp add: correctedVertexCount_def Let_def sqrt_values)

lemma hull_triangle:
  "calculateConvexHull [\<lparr>px = 0, py = 0\<rparr>, \<lparr>px = 40, py = 0\<rparr>, \<lparr>px = 0, py = 30\<rparr>]
     = [\<lparr>px = 0, py = 0\<rparr>, \<lparr>px = 40, py = 0\<rparr>, \<lparr>px = 0, py = 30\<rparr>]"
  by (simp add: calculateConvexHull_def)

lemma not_circle_120:
  "area m = 600 \<Longrightarrow> perimeter m = 120 \<Longrightarrow> circleTest m = None"
  using pi_less_4 by (simp add: circleTest_def Let_def)

text \<open>The right triangle (0,0), (40,0), (0,30) with its own metrics is a triangle with
  confidence 0.90.\<close>

theorem classifyShape_decision_table_witness:
  "circleTest (calculateMetrics [\<lparr>px = 0, py = 0\<rparr>, \<lparr>px = 40, py = 0\<rparr>, \<lparr>px = 0, py = 30\<rparr>]) = None \<and>
   simplifyContour [\<lparr>px = 0, py = 0\<rparr>, \<lparr>px = 40, py = 0\<rparr>, \<lparr>px = 0, py = 30\<rparr>]
     (0.06 * perimeter (calculateMetrics [\<lparr>px = 0, py = 0\<rparr>, \<lparr>px = 40, py = 0\<rparr>, \<lparr>px = 0, py = 30\<rparr>]))
     = Some [\<lparr>px = 0, py = 0\<rparr>, \<lparr>px = 40, py = 0\<rparr>, \<lparr>px = 0, py = 30\<rparr>] \<and>
   \<not> aspectRatio (calculateMetrics [\<lparr>px = 0, py = 0\<rparr>, \<lparr>px = 40, py = 0\<rparr>, \<lparr>px = 0, py = 30\<rparr>]) > 5 \<and>
   correctedVertexCount [\<lparr>px = 0, py = 0\<rparr>, \<lparr>px = 40, py = 0\<rparr>, \<lparr>px = 0, py = 30\<rparr>] = 3 \<and>
   solidityOf [\<lparr>px = 0, py = 0\<rparr>, \<lparr>px = 40, py = 0\<rparr>, \<lparr>px = 0, py = 30\<rparr>]
     (calculateMetrics [\<lparr>px = 0, py = 0\<rparr>, \<lparr>px = 40, py = 0\<rparr>, \<lparr>px = 0, py = 30\<rparr>]) = 1 \<and>
   classifyShape [\<lparr>px = 0, py = 0\<rparr>, \<lparr>px = 40, py = 0\<rparr>, \<lparr>px = 0, py = 30\<rparr>]
     (calculateMetrics [\<lparr>px = 0, py = 0\<rparr>, \<lparr>px = 40, py = 0\<rparr>, \<lparr>px = 0, py = 30\<rparr>])
     = Some (Some \<lparr> shape_type = Triangle, confidence = 0.90,
                    shape_area = 600, shape_perimeter = 120,
                    shape_boundingBox = \<lparr> box_x = 0, box_y = 0, width = 40, height = 30 \<rparr>,
                    shape_center = \<lparr> px = 40 / 3, py = 10 \<rparr> \<rparr>)"
proof -
  let ?c = "[\<lparr>px = 0, py = 0\<rparr>, \<lparr>px = 40, py = 0\<rparr>, \<lparr>px = 0::real, py = 30\<rparr>]"
  let ?m = "calculateMetrics ?c"
  have a: "circleTest ?m = None"
    by (rule not_circle_120) (simp_all add: metrics_triangle)
  have b: "simplifyContour ?c (0.06 * perimeter ?m) = Some ?c"
    using simplify_triangle by (simp add: metrics_triangle)
  have c: "\<not> aspectRatio ?m > 5"
    by (simp add: metrics_triangle aspectRatio_def orOne_def)
  have n: "3 = correctedVertexCount ?c" by (simp add: count_triangle)
  have s: "1 = solidityOf ?c ?m"
    by (simp add: solidityOf_def hull_triangle Let_def) (simp add: metrics_triangle)
  from classifyShape_decision_table [OF a b c n s]
  have "classifyShape ?c ?m =
          Some (Some \<lparr> shape_type = Triangle, confidence = 0.90,
                       shape_area = area ?m, shape_perimeter = perimeter ?m,
                       shape_boundingBox = boundingBox ?m, shape_center = center ?m \<rparr>)"
    by simp
  then have "classifyShape ?c ?m =
          Some (Some \<lparr> shape_type = Triangle, confidence = 0.90,
                    shape_area = 600, shape_perimeter = 120,
                    shape_boundingBox = \<lparr> box_x = 0, box_y = 0, width = 40, height = 30 \<rparr>,
                    shape_center = \<lparr> px = 40 / 3, py = 10 \<rparr> \<rparr>)"
    by (simp add: metrics_triangle)
  with a b c n s show ?thesis by simp
qed

text \<open>An octagon of area 120 and perimeter 40 with its own metrics is a circle.\<close>

theorem classifyShape_circle_witness:
  "0 < perimeter (calculateMetrics [\<lparr>px = 3, py = 0\<rparr>, \<lparr>px = 9, py = 0\<rparr>, \<lparr>px = 12, py = 4\<rparr>,
          \<lparr>px = 12, py = 8\<rparr>, \<lparr>px = 9, py = 12\<rparr>, \<lparr>px = 3, py = 12\<rparr>, \<lparr>px = 0, py = 8\<rparr>, \<lparr>px = 0, py = 4\<rparr>]) \<and>
   classifyShape [\<lparr>px = 3, py = 0\<rparr>, \<lparr>px = 9, py = 0\<rparr>, \<lparr>px = 12, py = 4\<rparr>,
          \<lparr>px = 12, py = 8\<rparr>, \<lparr>px = 9, py = 12\<rparr>, \<lparr>px = 3, py = 12\<rparr>, \<lparr>px = 0, py = 8\<rparr>, \<lparr>px = 0, py = 4\<rparr>]
     (calculateMetrics [\<lparr>px = 3, py = 0\<rparr>, \<lparr>px = 9, py = 0\<rparr>, \<lparr>px = 12, py = 4\<rparr>,
          \<lparr>px = 12, py = 8\<rparr>, \<lparr>px = 9, py = 12\<rparr>, \<lparr>px = 3, py = 12\<rparr>, \<lparr>px = 0, py = 8\<rparr>, \<lparr>px = 0, py = 4\<rparr>])
     = Some (Some \<lparr> shape_type = Circle, confidence = min (3 * pi / 10) 0.99,
                    shape_area = 120, shape_perimeter = 40,
                    shape_boundingBox = \<lparr> box_x = 0, box_y = 0, width = 12, height = 12 \<rparr>,
                    shape_center = \<lparr> px = 6, py = 6 \<rparr> \<rparr>)"
proof -
  let ?c = "[\<lparr>px = 3, py = 0\<rparr>, \<lparr>px = 9, py = 0\<rparr>, \<lparr>px = 12, py = 4\<rparr>,
          \<lparr>px = 12, py = 8\<rparr>, \<lparr>px = 9, py = 12\<rparr>, \<lparr>px = 3, py = 12\<rparr>, \<lparr>px = 0, py = 8\<rparr>, \<lparr>px = 0::real, py = 4\<rparr>]"
  let ?m = "calculateMetrics ?c"
  have p: "0 < perimeter ?m" by (simp add: metrics_octagon)
  have q: "4 * pi * area ?m / (perimeter ?m * perimeter ?m) > 0.80"
    using pi_ge_three by (simp add: metrics_octagon)
  from classifyShape_circle [OF p q, of ?c] p show ?thesis
    by (simp add: metrics_octagon)
qed

lemma metrics_rectangle:
  "calculateMetrics [\<lparr>px = 0, py = 0\<rparr>, \<lparr>px = 60, py = 0\<rparr>, \<lparr>px = 60, py = 10\<rparr>, \<lparr>px = 0, py = 10\<rparr>]
     = \<lparr> area = 600, perimeter = 140,
         boundingBox = \<lparr> box_x = 0, box_y = 0, width = 60, height = 10 \<rparr>,
         center = \<lparr> px = 30, py = 5 \<rparr> \<rparr>"
  by (simp add: calculateMetrics_def metricsLoop_def metricsStep_def metricsInit_def Let_def
      upt_rec lower_to_def raise_to_def shoelace_term_def segment_length_def sqrt_values)

lemma farthest_rectangle:
  "farthest [\<lparr>px = 0, py = 0\<rparr>, \<lparr>px = 60, py = 0\<rparr>, \<lparr>px = 60, py = 10\<rparr>, \<lparr>px = 0, py = 10\<rparr>]
     (length [\<lparr>px = 0::real, py = 0\<rparr>, \<lparr>px = 60, py = 0\<rparr>, \<lparr>px = 60, py = 10\<rparr>, \<lparr>px = 0, py = 10\<rparr>] - 1)
     1 0 0 = (60, 1)"
  by (simp add: farthest.simps perpendicularDistance_def sqrt_values)

lemma farthest_rectangle_right:
  "farthest [\<lparr>px = 60, py = 0\<rparr>, \<lparr>px = 60, py = 10\<rparr>, \<lparr>px = 0, py = 10\<rparr>]
     (length [\<lparr>px = 60::real, py = 0\<rparr>, \<lparr>px = 60, py = 10\<rparr>, \<lparr>px = 0, py = 10\<rparr>] - 1)
     1 0 0 = (sqrt (133200 / 1369), 1)"
  by (simp add: farthest.simps perpendicularDistance_def)

lemma simplify_rectangle:
  "simplifyContour [\<lparr>px = 0, py = 0\<rparr>, \<lparr>px = 60, py = 0\<rparr>, \<lparr>px = 60, py = 10\<rparr>, \<lparr>px = 0, py = 10\<rparr>] (42 / 5)
     = Some [\<lparr>px = 0, py = 0\<rparr>, \<lparr>px = 60, py = 0\<rparr>, \<lparr>px = 60, py = 10\<rparr>, \<lparr>px = 0, py = 10\<rparr>]"
proof -
  have l: "simplifyContour [\<lparr>px = 0, py = 0\<rparr>, \<lparr>px = 60, py = 0\<rparr>] (42 / 5)
             = Some [\<lparr>px = 0, py = 0\<rparr>, \<lparr>px = 60, py = 0\<rparr>]"
    by (rule idem_short) simp
  have rl: "simplifyContour [\<lparr>px = 60, py = 0\<rparr>, \<lparr>px = 60, py = 10\<rparr>] (42 / 5)
             = Some [\<lparr>px = 60, py = 0\<rparr>, \<lparr>px = 60, py = 10\<rparr>]"
    by (rule idem_short) simp
  have rr: "simplifyContour [\<lparr>px = 60, py = 10\<rparr>, \<lparr>px = 0, py = 10\<rparr>] (42 / 5)
             = Some [\<lparr>px = 60, py = 10\<rparr>, \<lparr>px = 0, py = 10\<rparr>]"
    by (rule idem_short) simp
  have big1: "42 / 5 < sqrt (133200 / 1369)"
    by (rule real_less_rsqrt) (simp add: power2_eq_square)
  have r: "simplifyContour [\<lparr>px = 60, py = 0\<rparr>, \<lparr>px = 60, py = 10\<rparr>, \<lparr>px = 0, py = 10\<rparr>] (42 / 5)
             = Some [\<lparr>px = 60, py = 0\<rparr>, \<lparr>px = 60, py = 10\<rparr>, \<lparr>px = 0, py = 10\<rparr>]"
    using unfold_split [OF farthest_rectangle_right big1, simplified, OF rl rr] by simp
  have big: "42 / 5 < (60::real)" by simp
  show ?thesis
    using unfold_split [OF farthest_rectangle big, simplified, OF l r] by simp
qed

text \<open>C5: \<open>analyzeContours\<close> calls the classifier with a contour and the metrics
  computed from it, after dropping every contour of area below 50. On every such call
  that is not classified as a circle, if \<open>max (width / height) (height / width)\<close> of the
  bounding box exceeds 5 (a positive side over a zero side counting as infinite), the
  aspect-ratio test fires and no shape is returned. A bounding box with a zero side has
  area 0 and so never reaches the classifier; for the boxes that do, \<open>height || 1\<close> and
  \<open>width || 1\<close> are the height and the width themselves.\<close>

theorem classifyShape_aspect_reject:
  assumes "(contour, metrics) \<in> set (outerContoursMetrics (contourMetricsOf contours))"
    and "circleTest metrics = None"
    and "plainRatioExceeds (width (boundingBox metrics)) (height (boundingBox metrics))"
  shows "width (boundingBox metrics) \<noteq> 0 \<and> height (boundingBox metrics) \<noteq> 0 \<and>
         max (width (boundingBox metrics) / height (boundingBox metrics))
             (height (boundingBox metrics) / width (boundingBox metrics)) > 5 \<and>
         aspectRatio metrics > 5 \<and>
         classifyShape contour metrics = Some None"
proof -
  from classified_pairs [OF assms(1)] have m: "metrics = calculateMetrics contour"
    and big: "\<not> area metrics < 50" by blast+
  have nz: "width (boundingBox metrics) \<noteq> 0 \<and> height (boundingBox metrics) \<noteq> 0"
  proof (rule ccontr)
    assume "\<not> (width (boundingBox metrics) \<noteq> 0 \<and> height (boundingBox metrics) \<noteq> 0)"
    then have "width (boundingBox (calculateMetrics contour)) = 0 \<or>
               height (boundingBox (calculateMetrics contour)) = 0"
      unfolding m by blast
    from zero_side_zero_area [OF this] big show False unfolding m by simp
  qed
  with assms(3) have plain: "max (width (boundingBox metrics) / height (boundingBox metrics))
             (height (boundingBox metrics) / width (boundingBox metrics)) > 5"
    by (simp add: plainRatioExceeds_def)
  with nz have asp: "aspectRatio metrics > 5"
    by (simp add: aspectRatio_def orOne_def Let_def)
  have "0 \<le> 0.06 * perimeter metrics" unfolding m using perimeter_nonneg [of contour] by simp
  then obtain vertices where "simplifyContour contour (0.06 * perimeter metrics) = Some vertices"
    using simplify_total by blast
  from aspect_reject_guarded [OF assms(2) this asp] nz plain asp show ?thesis by blast
qed

lemma rectangle_call:
  "outerContoursMetrics (contourMetricsOf
     [[\<lparr>px = 0, py = 0\<rparr>, \<lparr>px = 60, py = 0\<rparr>, \<lparr>px = 60, py = 10\<rparr>, \<lparr>px = 0, py = 10\<rparr>]])
   = [([\<lparr>px = 0, py = 0\<rparr>, \<lparr>px = 60, py = 0\<rparr>, \<lparr>px = 60, py = 10\<rparr>, \<lparr>px = 0, py = 10\<rparr>],
       calculateMetrics [\<lparr>px = 0, py = 0\<rparr>, \<lparr>px = 60, py = 0\<rparr>, \<lparr>px = 60, py = 10\<rparr>, \<lparr>px = 0, py = 10\<rparr>])]"
  by (simp add: contourMetricsOf_def metrics_rectangle outerContoursMetrics_def outerIndices_def
      isInnerContour_def)

text \<open>The 60 by 10 rectangle, alone in the image, reaches the classifier with its own
  metrics and is rejected.\<close>

theorem classifyShape_aspect_reject_witness:
  "([\<lparr>px = 0, py = 0\<rparr>, \<lparr>px = 60, py = 0\<rparr>, \<lparr>px = 60, py = 10\<rparr>, \<lparr>px = 0, py = 10\<rparr>],
    calculateMetrics [\<lparr>px = 0, py = 0\<rparr>, \<lparr>px = 60, py = 0\<rparr>, \<lparr>px = 60, py = 10\<rparr>, \<lparr>px = 0, py = 10\<rparr>])
     \<in> set (outerContoursMetrics (contourMetricsOf
          [[\<lparr>px = 0, py = 0\<rparr>, \<lparr>px = 60, py = 0\<rparr>, \<lparr>px = 60, py = 10\<rparr>, \<lparr>px = 0, py = 10\<rparr>]])) \<and>
   circleTest (calculateMetrics [\<lparr>px = 0, py = 0\<rparr>, \<lparr>px = 60, py = 0\<rparr>, \<lparr>px = 60, py = 10\<rparr>, \<lparr>px = 0, py = 10\<rparr>]) = None \<and>
   plainRatioExceeds 60 10 \<and>
   classifyShape [\<lparr>px = 0, py = 0\<rparr>, \<lparr>px = 60, py = 0\<rparr>, \<lparr>px = 60, py = 10\<rparr>, \<lparr>px = 0, py = 10\<rparr>]
     (calculateMetrics [\<lparr>px = 0, py = 0\<rparr>, \<lparr>px = 60, py = 0\<rparr>, \<lparr>px = 60, py = 10\<rparr>, \<lparr>px = 0, py = 10\<rparr>])
     = Some None"
proof -
  let ?c = "[\<lparr>px = 0, py = 0\<rparr>, \<lparr>px = 60, py = 0\<rparr>, \<lparr>px = 60, py = 10\<rparr>, \<lparr>px = 0::real, py = 10\<rparr>]"
  let ?m = "calculateMetrics ?c"
  have a: "(?c, ?m) \<in> set (outerContoursMetrics (contourMetricsOf [?c]))"
    unfolding rectangle_call by simp
  have b: "circleTest ?m = None"
    using pi_less_4 by (simp add: metrics_rectangle circleTest_def Let_def)
  have c: "plainRatioExceeds (width (boundingBox ?m)) (height (boundingBox ?m))"
    by (simp add: metrics_rectangle plainRatioExceeds_def)
  from classifyShape_aspect_reject [OF a b c]
  have "classifyShape ?c ?m = Some None" by blast
  moreover have "plainRatioExceeds 60 10" by (simp add: plainRatioExceeds_def)
  ultimately show ?thesis using a b by blast
qed

section \<open>Properties of the contour filter\<close>

lemma innerScan_iff:
  "innerScan cms i js \<longleftrightarrow>
     (\<exists>j\<in>set js. j \<noteq> i \<and> centerDist (cms ! i) (cms ! j) < 15 \<and>
                  area (snd (cms ! j)) > area (snd (cms ! i)))"
  by (induction js) auto

lemma isInnerContour_iff:
  "isInnerContour cms i \<longleftrightarrow>
     (\<exists>j<length cms. j \<noteq> i \<and> centerDist (cms ! i) (cms ! j) < 15 \<and>
                  area (snd (cms ! j)) > area (snd (cms ! i)))"
  by (auto simp: isInnerContour_def innerScan_iff)

text \<open>C3: after the duplicate resolution pass an entry survives exactly when no other
  entry has its centre closer than 15 and a strictly larger area. Hence of two entries
  with centres closer than 15 and different areas the smaller one is discarded (the larger
  one survives unless a third entry discards it in the same way, and entries of equal area
  do not discard each other). The survivors are returned in their original order.\<close>

theorem outerContours_characterisation:
  "(\<forall>i<length cms. i \<in> set (outerIndices cms) \<longleftrightarrow>
       \<not> (\<exists>j<length cms. j \<noteq> i \<and> centerDist (cms ! i) (cms ! j) < 15 \<and>
                  area (snd (cms ! j)) > area (snd (cms ! i)))) \<and>
   (\<forall>i<length cms. \<forall>j<length cms.
       centerDist (cms ! i) (cms ! j) < 15 \<and> area (snd (cms ! i)) < area (snd (cms ! j))
       \<longrightarrow> i \<notin> set (outerIndices cms)) \<and>
   outerContoursMetrics cms = map (\<lambda>i. cms ! i) (outerIndices cms) \<and>
   sorted_wrt (<) (outerIndices cms) \<and> set (outerIndices cms) \<subseteq> {..<length cms}"
proof -
  have a: "\<forall>i<length cms. i \<in> set (outerIndices cms) \<longleftrightarrow>
       \<not> (\<exists>j<length cms. j \<noteq> i \<and> centerDist (cms ! i) (cms ! j) < 15 \<and>
                  area (snd (cms ! j)) > area (snd (cms ! i)))"
    by (simp add: outerIndices_def isInnerContour_iff)
  have b: "\<forall>i<length cms. \<forall>j<length cms.
       centerDist (cms ! i) (cms ! j) < 15 \<and> area (snd (cms ! i)) < area (snd (cms ! j))
       \<longrightarrow> i \<notin> set (outerIndices cms)"
  proof (intro allI impI)
    fix i j assume i: "i < length cms" and j: "j < length cms"
      and c: "centerDist (cms ! i) (cms ! j) < 15 \<and> area (snd (cms ! i)) < area (snd (cms ! j))"
    then have "j \<noteq> i" by auto
    with i j c a show "i \<notin> set (outerIndices cms)" by blast
  qed
  have c: "sorted_wrt (<) (outerIndices cms)"
    unfolding outerIndices_def by (rule sorted_wrt_filter) simp
  have d: "set (outerIndices cms) \<subseteq> {..<length cms}"
    by (auto simp: outerIndices_def)
  show ?thesis using a b c d by (simp add: outerContoursMetrics_def)
qed

lemma metrics_box10:
  "calculateMetrics [\<lparr>px = 0, py = 0\<rparr>, \<lparr>px = 10, py = 0\<rparr>, \<lparr>px = 10, py = 10\<rparr>, \<lparr>px = 0, py = 10\<rparr>]
     = \<lparr> area = 100, perimeter = 40,
         boundingBox = \<lparr> box_x = 0, box_y = 0, width = 10, height = 10 \<rparr>,
         center = \<lparr> px = 5, py = 5 \<rparr> \<rparr>"
  by (simp add: calculateMetrics_def metricsLoop_def metricsStep_def metricsInit_def Let_def
      upt_rec lower_to_def raise_to_def shoelace_term_def segment_length_def sqrt_values)

lemma metrics_box12:
  "calculateMetrics [\<lparr>px = 0, py = 0\<rparr>, \<lparr>px = 12, py = 0\<rparr>, \<lparr>px = 12, py = 10\<rparr>, \<lparr>px = 0, py = 10\<rparr>]
     = \<lparr> area = 120, perimeter = 44,
         boundingBox = \<lparr> box_x = 0, box_y = 0, width = 12, height = 10 \<rparr>,
         center = \<lparr> px = 6, py = 5 \<rparr> \<rparr>"
  by (simp add: calculateMetrics_def metricsLoop_def metricsStep_def metricsInit_def Let_def
      upt_rec lower_to_def raise_to_def shoelace_term_def segment_length_def sqrt_values
      sqrt_of_square [of 12 144])

lemma metrics_box14:
  "calculateMetrics [\<lparr>px = 0, py = 0\<rparr>, \<lparr>px = 14, py = 0\<rparr>, \<lparr>px = 14, py = 10\<rparr>, \<lparr>px = 0, py = 10\<rparr>]
     = \<lparr> area = 140, perimeter = 48,
         boundingBox = \<lparr> box_x = 0, box_y = 0, width = 14, height = 10 \<rparr>,
         center = \<lparr> px = 7, py = 5 \<rparr> \<rparr>"
  by (simp add: calculateMetrics_def metricsLoop_def metricsStep_def metricsInit_def Let_def
      upt_rec lower_to_def raise_to_def shoelace_term_def segment_length_def sqrt_values
      sqrt_of_square [of 14 196])

lemma three_boxes:
  "contourMetricsOf
     [[\<lparr>px = 0, py = 0\<rparr>, \<lparr>px = 10, py = 0\<rparr>, \<lparr>px = 10, py = 10\<rparr>, \<lparr>px = 0, py = 10\<rparr>],
      [\<lparr>px = 0, py = 0\<rparr>, \<lparr>px = 12, py = 0\<rparr>, \<lparr>px = 12, py = 10\<rparr>, \<lparr>px = 0, py = 10\<rparr>],
      [\<lparr>px = 0, py = 0\<rparr>, \<lparr>px = 14, py = 0\<rparr>, \<lparr>px = 14, py = 10\<rparr>, \<lparr>px = 0, py = 10\<rparr>]]
   = [([\<lparr>px = 0, py = 0\<rparr>, \<lparr>px = 10, py = 0\<rparr>, \<lparr>px = 10, py = 10\<rparr>, \<lparr>px = 0, py = 10\<rparr>],
       \<lparr> area = 100, perimeter = 40,
         boundingBox = \<lparr> box_x = 0, box_y = 0, width = 10, height = 10 \<rparr>,
         center = \<lparr> px = 5, py = 5 \<rparr> \<rparr>),
      ([\<lparr>px = 0, py = 0\<rparr>, \<lparr>px = 12, py = 0\<rparr>, \<lparr>px = 12, py = 10\<rparr>, \<lparr>px = 0, py = 10\<rparr>],
       \<lparr> area = 120, perimeter = 44,
         boundingBox = \<lparr> box_x = 0, box_y = 0, width = 12, height = 10 \<rparr>,
         center = \<lparr> px = 6, py = 5 \<rparr> \<rparr>),
      ([\<lparr>px = 0, py = 0\<rparr>, \<lparr>px = 14, py = 0\<rparr>, \<lparr>px = 14, py = 10\<rparr>, \<lparr>px = 0, py = 10\<rparr>],
       \<lparr> area = 140, perimeter = 48,
         boundingBox = \<lparr> box_x = 0, box_y = 0, width = 14, height = 10 \<rparr>,
         center = \<lparr> px = 7, py = 5 \<rparr> \<rparr>)]"
  by (simp add: contourMetricsOf_def metrics_box10 metrics_box12 metrics_box14)

lemma three_boxes_outer:
  "outerIndices (contourMetricsOf
     [[\<lparr>px = 0, py = 0\<rparr>, \<lparr>px = 10, py = 0\<rparr>, \<lparr>px = 10, py = 10\<rparr>, \<lparr>px = 0, py = 10\<rparr>],
      [\<lparr>px = 0, py = 0\<rparr>, \<lparr>px = 12, py = 0\<rparr>, \<lparr>px = 12, py = 10\<rparr>, \<lparr>px = 0, py = 10\<rparr>],
      [\<lparr>px = 0, py = 0\<rparr>, \<lparr>px = 14, py = 0\<rparr>, \<lparr>px = 14, py = 10\<rparr>, \<lparr>px = 0, py = 10\<rparr>]]) = [2]"
  unfolding three_boxes
  by (simp add: outerIndices_def isInnerContour_def upt_rec centerDist_def Let_def)


text \<open>Three nested boxes of areas 100, 120 and 140 with centres one unit apart: the first
  is discarded because of the second.\<close>

theorem outerContours_characterisation_witness:
  "0 < length (contourMetricsOf
     [[\<lparr>px = 0, py = 0\<rparr>, \<lparr>px = 10, py = 0\<rparr>, \<lparr>px = 10, py = 10\<rparr>, \<lparr>px = 0, py = 10\<rparr>],
      [\<lparr>px = 0, py = 0\<rparr>, \<lparr>px = 12, py = 0\<rparr>, \<lparr>px = 12, py = 10\<rparr>, \<lparr>px = 0, py = 10\<rparr>],
      [\<lparr>px = 0, py = 0\<rparr>, \<lparr>px = 14, py = 0\<rparr>, \<lparr>px = 14, py = 10\<rparr>, \<lparr>px = 0, py = 10\<rparr>]]) \<and>
   1 < length (contourMetricsOf
     [[\<lparr>px = 0, py = 0\<rparr>, \<lparr>px = 10, py = 0\<rparr>, \<lparr>px = 10, py = 10\<rparr>, \<lparr>px = 0, py = 10\<rparr>],
      [\<lparr>px = 0, py = 0\<rparr>, \<lparr>px = 12, py = 0\<rparr>, \<lparr>px = 12, py = 10\<rparr>, \<lparr>px = 0, py = 10\<rparr>],
      [\<lparr>px = 0, py = 0\<rparr>, \<lparr>px = 14, py = 0\<rparr>, \<lparr>px = 14, py = 10\<rparr>, \<lparr>px = 0, py = 10\<rparr>]]) \<and>
   0 \<notin> set (outerIndices (contourMetricsOf
     [[\<lparr>px = 0, py = 0\<rparr>, \<lparr>px = 10, py = 0\<rparr>, \<lparr>px = 10, py = 10\<rparr>, \<lparr>px = 0, py = 10\<rparr>],
      [\<lparr>px = 0, py = 0\<rparr>, \<lparr>px = 12, py = 0\<rparr>, \<lparr>px = 12, py = 10\<rparr>, \<lparr>px = 0, py = 10\<rparr>],
      [\<lparr>px = 0, py = 0\<rparr>, \<lparr>px = 14, py = 0\<rparr>, \<lparr>px = 14, py = 10\<rparr>, \<lparr>px = 0, py = 10\<rparr>]]))"
proof -
  let ?cms = "contourMetricsOf
     [[\<lparr>px = 0, py = 0\<rparr>, \<lparr>px = 10, py = 0\<rparr>, \<lparr>px = 10, py = 10\<rparr>, \<lparr>px = 0, py = 10\<rparr>],
      [\<lparr>px = 0, py = 0\<rparr>, \<lparr>px = 12, py = 0\<rparr>, \<lparr>px = 12, py = 10\<rparr>, \<lparr>px = 0, py = 10\<rparr>],
      [\<lparr>px = 0, py = 0\<rparr>, \<lparr>px = 14, py = 0\<rparr>, \<lparr>px = 14, py = 10\<rparr>, \<lparr>px = 0, py = 10\<rparr>]]"
  have l: "0 < length ?cms" "1 < length ?cms" unfolding three_boxes by simp_all
  have c: "centerDist (?cms ! 0) (?cms ! 1) < 15 \<and> area (snd (?cms ! 0)) < area (snd (?cms ! 1))"
    unfolding three_boxes by (simp add: centerDist_def)
  from outerContours_characterisation [of ?cms] l c
  have "0 \<notin> set (outerIndices ?cms)" by blast
  with l show ?thesis by blast
qed

text \<open>In the same three boxes the first two have centres closer than 15 and the second is
  the larger of the two, but the only survivor is the third box.\<close>

theorem larger_of_pair_discarded:
  "length (contourMetricsOf
     [[\<lparr>px = 0, py = 0\<rparr>, \<lparr>px = 10, py = 0\<rparr>, \<lparr>px = 10, py = 10\<rparr>, \<lparr>px = 0, py = 10\<rparr>],
      [\<lparr>px = 0, py = 0\<rparr>, \<lparr>px = 12, py = 0\<rparr>, \<lparr>px = 12, py = 10\<rparr>, \<lparr>px = 0, py = 10\<rparr>],
      [\<lparr>px = 0, py = 0\<rparr>, \<lparr>px = 14, py = 0\<rparr>, \<lparr>px = 14, py = 10\<rparr>, \<lparr>px = 0, py = 10\<rparr>]]) = 3 \<and>
   centerDist
     ([\<lparr>px = 0, py = 0\<rparr>, \<lparr>px = 10, py = 0\<rparr>, \<lparr>px = 10, py = 10\<rparr>, \<lparr>px = 0, py = 10\<rparr>],
      calculateMetrics [\<lparr>px = 0, py = 0\<rparr>, \<lparr>px = 10, py = 0\<rparr>, \<lparr>px = 10, py = 10\<rparr>, \<lparr>px = 0, py = 10\<rparr>])
     ([\<lparr>px = 0, py = 0\<rparr>, \<lparr>px = 12, py = 0\<rparr>, \<lparr>px = 12, py = 10\<rparr>, \<lparr>px = 0, py = 10\<rparr>],
      calculateMetrics [\<lparr>px = 0, py = 0\<rparr>, \<lparr>px = 12, py = 0\<rparr>, \<lparr>px = 12, py = 10\<rparr>, \<lparr>px = 0, py = 10\<rparr>])
     < 15 \<and>
   area (calculateMetrics [\<lparr>px = 0, py = 0\<rparr>, \<lparr>px = 10, py = 0\<rparr>, \<lparr>px = 10, py = 10\<rparr>, \<lparr>px = 0, py = 10\<rparr>])
     < area (calculateMetrics [\<lparr>px = 0, py = 0\<rparr>, \<lparr>px = 12, py = 0\<rparr>, \<lparr>px = 12, py = 10\<rparr>, \<lparr>px = 0, py = 10\<rparr>]) \<and>
   map fst (outerContoursMetrics (contourMetricsOf
     [[\<lparr>px = 0, py = 0\<rparr>, \<lparr>px = 10, py = 0\<rparr>, \<lparr>px = 10, py = 10\<rparr>, \<lparr>px = 0, py = 10\<rparr>],
      [\<lparr>px = 0, py = 0\<rparr>, \<lparr>px = 12, py = 0\<rparr>, \<lparr>px = 12, py = 10\<rparr>, \<lparr>px = 0, py = 10\<rparr>],
      [\<lparr>px = 0, py = 0\<rparr>, \<lparr>px = 14, py = 0\<rparr>, \<lparr>px = 14, py = 10\<rparr>, \<lparr>px = 0, py = 10\<rparr>]]))
     = [[\<lparr>px = 0, py = 0\<rparr>, \<lparr>px = 14, py = 0\<rparr>, \<lparr>px = 14, py = 10\<rparr>, \<lparr>px = 0, py = 10\<rparr>]]"
proof -
  have "map fst (outerContoursMetrics (contourMetricsOf
     [[\<lparr>px = 0, py = 0\<rparr>, \<lparr>px = 10, py = 0\<rparr>, \<lparr>px = 10, py = 10\<rparr>, \<lparr>px = 0, py = 10\<rparr>],
      [\<lparr>px = 0, py = 0\<rparr>, \<lparr>px = 12, py = 0\<rparr>, \<lparr>px = 12, py = 10\<rparr>, \<lparr>px = 0, py = 10\<rparr>],
      [\<lparr>px = 0, py = 0\<rparr>, \<lparr>px = 14, py = 0\<rparr>, \<lparr>px = 14, py = 10\<rparr>, \<lparr>px = 0, py = 10\<rparr>]]))
     = [[\<lparr>px = 0, py = 0\<rparr>, \<lparr>px = 14, py = 0\<rparr>, \<lparr>px = 14, py = 10\<rparr>, \<lparr>px = 0, py = 10\<rparr>]]"
    unfolding outerContoursMetrics_def three_boxes_outer unfolding three_boxes by simp
  moreover have "length (contourMetricsOf
     [[\<lparr>px = 0, py = 0\<rparr>, \<lparr>px = 10, py = 0\<rparr>, \<lparr>px = 10, py = 10\<rparr>, \<lparr>px = 0, py = 10\<rparr>],
      [\<lparr>px = 0, py = 0\<rparr>, \<lparr>px = 12, py = 0\<rparr>, \<lparr>px = 12, py = 10\<rparr>, \<lparr>px = 0, py = 10\<rparr>],
      [\<lparr>px = 0, py = 0\<rparr>, \<lparr>px = 14, py = 0\<rparr>, \<lparr>px = 14, py = 10\<rparr>, \<lparr>px = 0, py = 10\<rparr>]]) = 3"
    unfolding three_boxes by simp
  ultimately show ?thesis
    by (simp add: metrics_box10 metrics_box12 centerDist_def)
qed


section \<open>Properties of the contour tracer\<close>

lemma scan_never_raises:
  "det_height d \<le> int (length grid) \<Longrightarrow>
     scanNeighbors d startPoint grid currentPoint searchStartIndex is \<noteq> Raised e"
proof (induction "is")
  case Nil
  then show ?case by simp
next
  case (Cons i rest)
  then show ?case
    by (auto simp: Let_def cell_def split: sum.splits)
qed

lemma scan_found:
  "scanNeighbors d startPoint grid currentPoint searchStartIndex is = Found p k \<Longrightarrow>
     0 \<le> px p \<and> px p < det_width d \<and> 0 \<le> py p \<and> py p < det_height d \<and>
     p \<noteq> startPoint \<and>
     (cell grid (py p) (px p) = Inr (Some 255) \<or> cell grid (py p) (px p) = Inr (Some 128))"
proof (induction "is")
  case Nil
  then show ?case by simp
next
  case (Cons i rest)
  then show ?case
    by (auto simp: Let_def split: sum.splits if_splits)
qed

lemma markVisited_length [simp]: "length (markVisited grid p) = length grid"
  by (simp add: markVisited_def)

lemma cell_mark_same:
  "cell grid (py p) (px p) = Inr (Some 255) \<or> cell grid (py p) (px p) = Inr (Some 128) \<Longrightarrow>
     cell (markVisited grid p) (py p) (px p) = Inr (Some 128)"
  by (auto simp: markVisited_def cell_def split: if_splits)

lemma cell_mark_other:
  "cell grid y x = Inr (Some 128) \<Longrightarrow> cell (markVisited grid p) y x = Inr (Some 128)"
  by (auto simp: markVisited_def cell_def nth_list_update split: if_splits)

lemma walk_returns:
  assumes "det_height d \<le> int (length grid)"
    and "length contour = traceCount + 1"
    and "traceCount \<le> MAX_TRACE"
  shows "\<exists>r. walk d startPoint grid contour currentPoint searchStartIndex traceCount = Inr r \<and>
             prefix contour (trace_contour r) \<and>
             length (trace_contour r) = trace_count r \<and>
             trace_count r \<le> MAX_TRACE + 1 \<and>
             (trace_exit r \<noteq> CapExceeded \<longrightarrow> trace_count r \<le> MAX_TRACE \<and> trace_log r = []) \<and>
             (trace_exit r = CapExceeded \<longrightarrow>
                trace_count r = MAX_TRACE + 1 \<and>
                trace_log r = [capMessage])"
  using assms
proof (induction d startPoint grid contour currentPoint searchStartIndex traceCount
    rule: walk.induct)
  case (1 d startPoint grid contour currentPoint searchStartIndex traceCount)
  show ?case
  proof (cases "traceCount < MAX_TRACE")
    case False
    with "1.prems" have "traceCount = MAX_TRACE" by simp
    then show ?thesis using "1.prems"
      by (subst walk.simps) simp
  next
    case True
    note lt = True
    show ?thesis
    proof (cases "scanNeighbors d startPoint grid currentPoint searchStartIndex
                    [0..<length neighbors]")
      case BackAtStart
      then show ?thesis using lt "1.prems" by (subst walk.simps) simp
    next
      case (Found nextPoint neighborIndex)
      have a: "det_height d \<le> int (length (markVisited grid nextPoint))"
        using "1.prems"(1) by simp
      have b: "length (contour @ [nextPoint]) = (traceCount + 1) + 1"
        using "1.prems"(2) by simp
      have c: "traceCount + 1 \<le> MAX_TRACE" using lt by simp
      from "1.IH" [OF lt Found a b c] obtain r where
        r: "walk d startPoint (markVisited grid nextPoint) (contour @ [nextPoint]) nextPoint
              ((neighborIndex + 5) mod 8) (traceCount + 1) = Inr r"
        and p: "prefix (contour @ [nextPoint]) (trace_contour r)"
        and rest: "length (trace_contour r) = trace_count r \<and>
             trace_count r \<le> MAX_TRACE + 1 \<and>
             (trace_exit r \<noteq> CapExceeded \<longrightarrow> trace_count r \<le> MAX_TRACE \<and> trace_log r = []) \<and>
             (trace_exit r = CapExceeded \<longrightarrow>
                trace_count r = MAX_TRACE + 1 \<and>
                trace_log r = [capMessage])"
        by blast
      have "walk d startPoint grid contour currentPoint searchStartIndex traceCount = Inr r"
        using lt Found r by (subst walk.simps) simp
      moreover have "prefix contour (trace_contour r)"
        using p by (rule append_prefixD)
      ultimately show ?thesis using rest by blast
    next
      case DeadEnd
      then show ?thesis using lt "1.prems" by (subst walk.simps) simp
    next
      case (Raised e)
      then show ?thesis using scan_never_raises [OF "1.prems"(1)] by blast
    qed
  qed
qed

lemma walk_points:
  assumes "walk d startPoint grid contour currentPoint searchStartIndex traceCount = Inr r"
    and "contour \<noteq> []"
    and "\<forall>p\<in>set (tl contour). p \<noteq> startPoint \<and>
            0 \<le> px p \<and> px p < det_width d \<and> 0 \<le> py p \<and> py p < det_height d \<and>
            cell grid (py p) (px p) = Inr (Some 128)"
  shows "\<forall>p\<in>set (tl (trace_contour r)). p \<noteq> startPoint \<and>
            0 \<le> px p \<and> px p < det_width d \<and> 0 \<le> py p \<and> py p < det_height d \<and>
            cell (trace_grid r) (py p) (px p) = Inr (Some 128)"
  using assms
proof (induction d startPoint grid contour currentPoint searchStartIndex traceCount
    rule: walk.induct)
  case (1 d startPoint grid contour currentPoint searchStartIndex traceCount)
  note run = "1.prems"(1) and ne = "1.prems"(2) and inv = "1.prems"(3)
  show ?case
  proof (cases "traceCount < MAX_TRACE")
    case False
    then have "trace_contour r = contour" "trace_grid r = grid"
      using run by (subst (asm) walk.simps, auto)+
    then show ?thesis using inv by simp
  next
    case True
    note lt = True
    show ?thesis
    proof (cases "scanNeighbors d startPoint grid currentPoint searchStartIndex
                    [0..<length neighbors]")
      case BackAtStart
      then have "trace_contour r = contour" "trace_grid r = grid"
        using run lt by (subst (asm) walk.simps, auto)+
      then show ?thesis using inv by simp
    next
      case DeadEnd
      then have "trace_contour r = contour" "trace_grid r = grid"
        using run lt by (subst (asm) walk.simps, auto)+
      then show ?thesis using inv by simp
    next
      case (Raised e)
      then show ?thesis using run lt by (subst (asm) walk.simps) simp
    next
      case (Found nextPoint neighborIndex)
      have run': "walk d startPoint (markVisited grid nextPoint) (contour @ [nextPoint])
                    nextPoint ((neighborIndex + 5) mod 8) (traceCount + 1) = Inr r"
        using run lt Found by (subst (asm) walk.simps) simp
      note f = scan_found [OF Found]
      have inv': "\<forall>p\<in>set (tl (contour @ [nextPoint])). p \<noteq> startPoint \<and>
            0 \<le> px p \<and> px p < det_width d \<and> 0 \<le> py p \<and> py p < det_height d \<and>
            cell (markVisited grid nextPoint) (py p) (px p) = Inr (Some 128)"
      proof
        fix p assume "p \<in> set (tl (contour @ [nextPoint]))"
        then consider "p \<in> set (tl contour)" | "p = nextPoint" using ne by auto
        then show "p \<noteq> startPoint \<and>
            0 \<le> px p \<and> px p < det_width d \<and> 0 \<le> py p \<and> py p < det_height d \<and>
            cell (markVisited grid nextPoint) (py p) (px p) = Inr (Some 128)"
        proof cases
          case 1
          then show ?thesis using inv cell_mark_other by blast
        next
          case 2
          then show ?thesis using f cell_mark_same by blast
        qed
      qed
      have "contour @ [nextPoint] \<noteq> []" by simp
      from "1.IH" [OF lt Found run' this inv'] show ?thesis .
    qed
  qed
qed

text \<open>C6: on a grid that has a row for every \<open>y\<close> below the detector's height,
  \<open>traceContour\<close> returns, and what it returns is a contour that starts with the start
  pixel. The loop condition is evaluated at most 20001 times and the body runs at most
  20000 times: the counter ends at most at \<open>MAX_TRACE + 1\<close>, and at most at \<open>MAX_TRACE\<close>
  when the walk ended inside the loop (closed contour or dead end), where nothing is
  logged; when the cap ended the walk the contour built so far is returned and the one
  diagnostic line is logged. No exception is raised.\<close>

theorem traceContour_returns:
  assumes "det_height d \<le> int (length grid)"
  shows "\<exists>r. traceContour d startPoint grid = Inr r \<and>
             trace_contour r \<noteq> [] \<and> hd (trace_contour r) = startPoint \<and>
             length (trace_contour r) = trace_count r \<and>
             trace_count r \<le> MAX_TRACE + 1 \<and>
             (trace_exit r \<noteq> CapExceeded \<longrightarrow> trace_count r \<le> MAX_TRACE \<and> trace_log r = []) \<and>
             (trace_exit r = CapExceeded \<longrightarrow>
                trace_count r = MAX_TRACE + 1 \<and>
                trace_log r = [capMessage])"
proof -
  have "length [startPoint] = 0 + 1" "(0::nat) \<le> MAX_TRACE" by simp_all
  from walk_returns [OF assms this, of startPoint startPoint 4] obtain r where
    R: "walk d startPoint grid [startPoint] startPoint 4 0 = Inr r \<and>
        prefix [startPoint] (trace_contour r) \<and>
        length (trace_contour r) = trace_count r \<and>
        trace_count r \<le> MAX_TRACE + 1 \<and>
        (trace_exit r \<noteq> CapExceeded \<longrightarrow> trace_count r \<le> MAX_TRACE \<and> trace_log r = []) \<and>
        (trace_exit r = CapExceeded \<longrightarrow>
           trace_count r = MAX_TRACE + 1 \<and> trace_log r = [capMessage])" ..
  from R have p: "prefix [startPoint] (trace_contour r)" by simp
  then obtain zs where "trace_contour r = [startPoint] @ zs" unfolding prefix_def ..
  then have "trace_contour r \<noteq> [] \<and> hd (trace_contour r) = startPoint" by simp
  with R have "traceContour d startPoint grid = Inr r \<and>
             trace_contour r \<noteq> [] \<and> hd (trace_contour r) = startPoint \<and>
             length (trace_contour r) = trace_count r \<and>
             trace_count r \<le> MAX_TRACE + 1 \<and>
             (trace_exit r \<noteq> CapExceeded \<longrightarrow> trace_count r \<le> MAX_TRACE \<and> trace_log r = []) \<and>
             (trace_exit r = CapExceeded \<longrightarrow>
                trace_count r = MAX_TRACE + 1 \<and> trace_log r = [capMessage])"
    unfolding traceContour_def by simp
  then show ?thesis by (rule exI)
qed

text \<open>C2: the pixel accepted in an iteration of the walk lies inside the grid, is not
  the start pixel, and its cell holds 255 (an unvisited edge pixel) or 128 (a pixel
  already visited); it is appended in both cases. Every point of the returned contour
  after the first is therefore inside the grid, different from the start pixel, and
  marked 128 in the grid the call leaves behind. The start pixel is never appended: when
  the scan meets it, the contour is returned.\<close>

theorem traceContour_accepted_pixels:
  "(scanNeighbors d startPoint grid currentPoint searchStartIndex is = Found p k \<longrightarrow>
      0 \<le> px p \<and> px p < det_width d \<and> 0 \<le> py p \<and> py p < det_height d \<and>
      p \<noteq> startPoint \<and>
      (cell grid (py p) (px p) = Inr (Some 255) \<or> cell grid (py p) (px p) = Inr (Some 128))) \<and>
   (traceContour d startPoint grid = Inr r \<longrightarrow>
      (\<forall>q\<in>set (tl (trace_contour r)). q \<noteq> startPoint \<and>
          0 \<le> px q \<and> px q < det_width d \<and> 0 \<le> py q \<and> py q < det_height d \<and>
          cell (trace_grid r) (py q) (px q) = Inr (Some 128)))"
proof -
  have "traceContour d startPoint grid = Inr r \<longrightarrow>
      (\<forall>q\<in>set (tl (trace_contour r)). q \<noteq> startPoint \<and>
          0 \<le> px q \<and> px q < det_width d \<and> 0 \<le> py q \<and> py q < det_height d \<and>
          cell (trace_grid r) (py q) (px q) = Inr (Some 128))"
  proof
    assume "traceContour d startPoint grid = Inr r"
    then have w: "walk d startPoint grid [startPoint] startPoint 4 0 = Inr r"
      by (simp add: traceContour_def)
    show "\<forall>q\<in>set (tl (trace_contour r)). q \<noteq> startPoint \<and>
          0 \<le> px q \<and> px q < det_width d \<and> 0 \<le> py q \<and> py q < det_height d \<and>
          cell (trace_grid r) (py q) (px q) = Inr (Some 128)"
      by (rule walk_points [OF w]) simp_all
  qed
  moreover have "scanNeighbors d startPoint grid currentPoint searchStartIndex is = Found p k \<longrightarrow>
      0 \<le> px p \<and> px p < det_width d \<and> 0 \<le> py p \<and> py p < det_height d \<and>
      p \<noteq> startPoint \<and>
      (cell grid (py p) (px p) = Inr (Some 255) \<or> cell grid (py p) (px p) = Inr (Some 128))"
    by (rule impI) (rule scan_found)
  ultimately show ?thesis by (rule conjI [rotated])
qed

lemma walk_found:
  "traceCount < MAX_TRACE \<Longrightarrow>
   scanNeighbors d startPoint grid currentPoint searchStartIndex [0..<length neighbors]
     = Found nextPoint neighborIndex \<Longrightarrow>
   walk d startPoint grid contour currentPoint searchStartIndex traceCount
     = walk d startPoint (markVisited grid nextPoint) (contour @ [nextPoint]) nextPoint
         ((neighborIndex + 5) mod 8) (traceCount + 1)"
  by (subst walk.simps) simp

lemma walk_closed:
  "traceCount < MAX_TRACE \<Longrightarrow>
   scanNeighbors d startPoint grid currentPoint searchStartIndex [0..<length neighbors]
     = BackAtStart \<Longrightarrow>
   walk d startPoint grid contour currentPoint searchStartIndex traceCount
     = Inr \<lparr> trace_contour = contour, trace_grid = grid, trace_count = traceCount + 1,
             trace_log = [], trace_exit = Closed \<rparr>"
  by (subst walk.simps) simp

lemma scan_indices: "[0..<length neighbors] = [0, 1, 2, 3, 4, 5, 6, 7]"
  by (simp add: neighbors_def upt_rec)

lemma scan_example_1:
  "scanNeighbors \<lparr>det_width = 5, det_height = 3\<rparr> \<lparr>px = 1, py = 1\<rparr>
     [[0, 0, 0, 0, 0], [0, 128, 255, 255, 0], [0, 0, 0, 0, 0]] \<lparr>px = 1, py = 1\<rparr> 4
     [0..<length neighbors] = Found \<lparr>px = 2, py = 1\<rparr> 0"
  unfolding scan_indices by (simp add: neighbors_def cell_def Let_def)

lemma scan_example_2:
  "scanNeighbors \<lparr>det_width = 5, det_height = 3\<rparr> \<lparr>px = 1, py = 1\<rparr>
     [[0, 0, 0, 0, 0], [0, 128, 128, 255, 0], [0, 0, 0, 0, 0]] \<lparr>px = 2, py = 1\<rparr> 5
     [0..<length neighbors] = Found \<lparr>px = 3, py = 1\<rparr> 0"
  unfolding scan_indices by (simp add: neighbors_def cell_def Let_def)

lemma scan_example_3:
  "scanNeighbors \<lparr>det_width = 5, det_height = 3\<rparr> \<lparr>px = 1, py = 1\<rparr>
     [[0, 0, 0, 0, 0], [0, 128, 128, 128, 0], [0, 0, 0, 0, 0]] \<lparr>px = 3, py = 1\<rparr> 5
     [0..<length neighbors] = Found \<lparr>px = 2, py = 1\<rparr> 4"
  unfolding scan_indices by (simp add: neighbors_def cell_def Let_def)

lemma scan_example_4:
  "scanNeighbors \<lparr>det_width = 5, det_height = 3\<rparr> \<lparr>px = 1, py = 1\<rparr>
     [[0, 0, 0, 0, 0], [0, 128, 128, 128, 0], [0, 0, 0, 0, 0]] \<lparr>px = 2, py = 1\<rparr> 1
     [0..<length neighbors] = BackAtStart"
  unfolding scan_indices by (simp add: neighbors_def cell_def Let_def)

lemma trace_example:
  "traceContour \<lparr>det_width = 5, det_height = 3\<rparr> \<lparr>px = 1, py = 1\<rparr>
     [[0, 0, 0, 0, 0], [0, 128, 255, 255, 0], [0, 0, 0, 0, 0]]
   = Inr \<lparr> trace_contour = [\<lparr>px = 1, py = 1\<rparr>, \<lparr>px = 2, py = 1\<rparr>, \<lparr>px = 3, py = 1\<rparr>, \<lparr>px = 2, py = 1\<rparr>],
           trace_grid = [[0, 0, 0, 0, 0], [0, 128, 128, 128, 0], [0, 0, 0, 0, 0]],
           trace_count = 4, trace_log = [], trace_exit = Closed \<rparr>"
proof -
  let ?d = "\<lparr>det_width = 5, det_height = 3\<rparr>"
  let ?s = "\<lparr>px = 1, py = 1 :: int\<rparr>"
  let ?p2 = "\<lparr>px = 2, py = 1 :: int\<rparr>"
  let ?p3 = "\<lparr>px = 3, py = 1 :: int\<rparr>"
  let ?g0 = "[[0, 0, 0, 0, 0], [0, 128, 255, 255, 0], [0, 0, 0, 0, 0 :: nat]]"
  let ?g1 = "[[0, 0, 0, 0, 0], [0, 128, 128, 255, 0], [0, 0, 0, 0, 0 :: nat]]"
  let ?g2 = "[[0, 0, 0, 0, 0], [0, 128, 128, 128, 0], [0, 0, 0, 0, 0 :: nat]]"
  have m1: "markVisited ?g0 ?p2 = ?g1" by (simp add: markVisited_def cell_def)
  have m2: "markVisited ?g1 ?p3 = ?g2" by (simp add: markVisited_def cell_def)
  have m3: "markVisited ?g2 ?p2 = ?g2" by (simp add: markVisited_def cell_def)
  have "walk ?d ?s ?g0 [?s] ?s 4 0 = walk ?d ?s ?g1 [?s, ?p2] ?p2 5 (0 + 1)"
    using walk_found [OF _ scan_example_1, of 0 "[?s]"] by (simp add: m1 MAX_TRACE_def)
  also have "\<dots> = walk ?d ?s ?g2 [?s, ?p2, ?p3] ?p3 5 (0 + 1 + 1)"
    using walk_found [OF _ scan_example_2, of "0 + 1" "[?s, ?p2]"]
    by (simp add: m2 MAX_TRACE_def)
  also have "\<dots> = walk ?d ?s ?g2 [?s, ?p2, ?p3, ?p2] ?p2 1 (0 + 1 + 1 + 1)"
    using walk_found [OF _ scan_example_3, of "0 + 1 + 1" "[?s, ?p2, ?p3]"]
    by (simp add: m3 MAX_TRACE_def)
  also have "\<dots> = Inr \<lparr> trace_contour = [?s, ?p2, ?p3, ?p2], trace_grid = ?g2,
                         trace_count = 4, trace_log = [], trace_exit = Closed \<rparr>"
    using walk_closed [OF _ scan_example_4, of "0 + 1 + 1 + 1" "[?s, ?p2, ?p3, ?p2]"]
    by (simp add: MAX_TRACE_def)
  finally show ?thesis by (simp add: traceContour_def)
qed

text \<open>A 5 by 3 grid with the edge pixels (1,1), (2,1), (3,1) in its middle row, the first
  already marked by the scan that starts the trace.\<close>

theorem traceContour_returns_witness:
  "det_height \<lparr>det_width = 5, det_height = 3\<rparr>
     \<le> int (length [[0, 0, 0, 0, 0], [0, 128, 255, 255, 0], [0, 0, 0, 0, 0 :: nat]]) \<and>
   (\<exists>r. traceContour \<lparr>det_width = 5, det_height = 3\<rparr> \<lparr>px = 1, py = 1\<rparr>
            [[0, 0, 0, 0, 0], [0, 128, 255, 255, 0], [0, 0, 0, 0, 0]] = Inr r \<and>
        trace_contour r \<noteq> [] \<and> hd (trace_contour r) = \<lparr>px = 1, py = 1\<rparr> \<and>
        length (trace_contour r) = trace_count r \<and> trace_count r \<le> MAX_TRACE + 1)"
proof -
  have h: "det_height \<lparr>det_width = 5, det_height = 3\<rparr>
             \<le> int (length [[0, 0, 0, 0, 0], [0, 128, 255, 255, 0], [0, 0, 0, 0, 0 :: nat]])"
    by simp
  from traceContour_returns [OF h, of "\<lparr>px = 1, py = 1\<rparr>"] obtain r where
    "traceContour \<lparr>det_width = 5, det_height = 3\<rparr> \<lparr>px = 1, py = 1\<rparr>
            [[0, 0, 0, 0, 0], [0, 128, 255, 255, 0], [0, 0, 0, 0, 0]] = Inr r \<and>
     trace_contour r \<noteq> [] \<and> hd (trace_contour r) = \<lparr>px = 1, py = 1\<rparr> \<and>
     length (trace_contour r) = trace_count r \<and>
     trace_count r \<le> MAX_TRACE + 1 \<and>
     (trace_exit r \<noteq> CapExceeded \<longrightarrow> trace_count r \<le> MAX_TRACE \<and> trace_log r = []) \<and>
     (trace_exit r = CapExceeded \<longrightarrow>
        trace_count r = MAX_TRACE + 1 \<and> trace_log r = [capMessage])" ..
  then have "traceContour \<lparr>det_width = 5, det_height = 3\<rparr> \<lparr>px = 1, py = 1\<rparr>
            [[0, 0, 0, 0, 0], [0, 128, 255, 255, 0], [0, 0, 0, 0, 0]] = Inr r \<and>
        trace_contour r \<noteq> [] \<and> hd (trace_contour r) = \<lparr>px = 1, py = 1\<rparr> \<and>
        length (trace_contour r) = trace_count r \<and> trace_count r \<le> MAX_TRACE + 1"
    by simp
  then have "\<exists>r. traceContour \<lparr>det_width = 5, det_height = 3\<rparr> \<lparr>px = 1, py = 1\<rparr>
            [[0, 0, 0, 0, 0], [0, 128, 255, 255, 0], [0, 0, 0, 0, 0]] = Inr r \<and>
        trace_contour r \<noteq> [] \<and> hd (trace_contour r) = \<lparr>px = 1, py = 1\<rparr> \<and>
        length (trace_contour r) = trace_count r \<and> trace_count r \<le> MAX_TRACE + 1"
    by (rule exI)
  with h show ?thesis by (rule conjI)
qed

text \<open>On that grid the first iteration accepts the unvisited pixel (2,1), and the three
  appended points are marked 128 afterwards.\<close>

theorem traceContour_accepted_pixels_witness:
  "scanNeighbors \<lparr>det_width = 5, det_height = 3\<rparr> \<lparr>px = 1, py = 1\<rparr>
     [[0, 0, 0, 0, 0], [0, 128, 255, 255, 0], [0, 0, 0, 0, 0]] \<lparr>px = 1, py = 1\<rparr> 4
     [0..<length neighbors] = Found \<lparr>px = 2, py = 1\<rparr> 0 \<and>
   \<lparr>px = 2, py = 1\<rparr> \<noteq> \<lparr>px = 1, py = 1 :: int\<rparr> \<and>
   (cell [[0, 0, 0, 0, 0], [0, 128, 255, 255, 0], [0, 0, 0, 0, 0]] 1 2 = Inr (Some 255) \<or>
    cell [[0, 0, 0, 0, 0], [0, 128, 255, 255, 0], [0, 0, 0, 0, 0]] 1 2 = Inr (Some 128)) \<and>
   traceContour \<lparr>det_width = 5, det_height = 3\<rparr> \<lparr>px = 1, py = 1\<rparr>
     [[0, 0, 0, 0, 0], [0, 128, 255, 255, 0], [0, 0, 0, 0, 0]]
     = Inr \<lparr> trace_contour = [\<lparr>px = 1, py = 1\<rparr>, \<lparr>px = 2, py = 1\<rparr>, \<lparr>px = 3, py = 1\<rparr>, \<lparr>px = 2, py = 1\<rparr>],
             trace_grid = [[0, 0, 0, 0, 0], [0, 128, 128, 128, 0], [0, 0, 0, 0, 0]],
             trace_count = 4, trace_log = [], trace_exit = Closed \<rparr> \<and>
   cell [[0, 0, 0, 0, 0], [0, 128, 128, 128, 0], [0, 0, 0, 0, 0]] 1 2 = Inr (Some 128) \<and>
   cell [[0, 0, 0, 0, 0], [0, 128, 128, 128, 0], [0, 0, 0, 0, 0]] 1 3 = Inr (Some 128)"
  using traceContour_accepted_pixels
    [of "\<lparr>det_width = 5, det_height = 3\<rparr>" "\<lparr>px = 1, py = 1\<rparr>"
        "[[0, 0, 0, 0, 0], [0, 128, 255, 255, 0], [0, 0, 0, 0, 0]]" "\<lparr>px = 1, py = 1\<rparr>" 4
        "[0..<length neighbors]" "\<lparr>px = 2, py = 1\<rparr>" 0
        "\<lparr> trace_contour = [\<lparr>px = 1, py = 1\<rparr>, \<lparr>px = 2, py = 1\<rparr>, \<lparr>px = 3, py = 1\<rparr>, \<lparr>px = 2, py = 1\<rparr>],
             trace_grid = [[0, 0, 0, 0, 0], [0, 128, 128, 128, 0], [0, 0, 0, 0, 0]],
             trace_count = 4, trace_log = [], trace_exit = Closed \<rparr>"]
  unfolding scan_example_1 trace_example
  by simp

text \<open>On the same grid the third iteration, standing at (3,1), accepts (2,1), which is
  marked 128 and is not the start pixel; the returned contour holds (2,1) twice.\<close>

theorem traceContour_reenters_visited_pixel:
  "traceContour \<lparr>det_width = 5, det_height = 3\<rparr> \<lparr>px = 1, py = 1\<rparr>
     [[0, 0, 0, 0, 0], [0, 128, 255, 255, 0], [0, 0, 0, 0, 0]]
     = Inr \<lparr> trace_contour = [\<lparr>px = 1, py = 1\<rparr>, \<lparr>px = 2, py = 1\<rparr>, \<lparr>px = 3, py = 1\<rparr>, \<lparr>px = 2, py = 1\<rparr>],
             trace_grid = [[0, 0, 0, 0, 0], [0, 128, 128, 128, 0], [0, 0, 0, 0, 0]],
             trace_count = 4, trace_log = [], trace_exit = Closed \<rparr> \<and>
   cell [[0, 0, 0, 0, 0], [0, 128, 128, 128, 0], [0, 0, 0, 0, 0]] 1 2 = Inr (Some 128) \<and>
   scanNeighbors \<lparr>det_width = 5, det_height = 3\<rparr> \<lparr>px = 1, py = 1\<rparr>
     [[0, 0, 0, 0, 0], [0, 128, 128, 128, 0], [0, 0, 0, 0, 0]] \<lparr>px = 3, py = 1\<rparr> 5
     [0..<length neighbors] = Found \<lparr>px = 2, py = 1\<rparr> 4"
  by (simp add: trace_example scan_example_3 cell_def)

end
